theory Spec2Isabelle
  imports Main "HOL-Library.AList" "HOL-Library.Product_Lexorder"
begin

section \<open>Python dictionaries\<close>

text \<open>
  A Python \<open>dict\<close> keeps its keys unique and iterates in insertion order. It is modelled
  as an association list: assigning to a key that is present replaces the value in place,
  assigning to a new key appends, deleting removes the pair. The uniqueness of the keys is
  the predicate \<open>dict_ok\<close>, which the updates below preserve.
\<close>

type_synonym ('k, 'v) dict = "('k \<times> 'v) list"

definition dict_ok :: "('k, 'v) dict \<Rightarrow> bool" where
  "dict_ok d = distinct (map fst d)"

definition dict_keys :: "('k, 'v) dict \<Rightarrow> 'k list" where
  "dict_keys d = map fst d"

definition dict_contains :: "('k, 'v) dict \<Rightarrow> 'k \<Rightarrow> bool" where
  \<comment> \<open>\<open>k in d\<close>\<close>
  "dict_contains d k = (k \<in> set (dict_keys d))"

definition dict_get :: "('k, 'v) dict \<Rightarrow> 'k \<Rightarrow> 'v \<Rightarrow> 'v" where
  \<comment> \<open>\<open>d.get(k, dflt)\<close>\<close>
  "dict_get d k dflt = (case map_of d k of None \<Rightarrow> dflt | Some v \<Rightarrow> v)"

definition dict_getitem :: "('k, 'v) dict \<Rightarrow> 'k \<Rightarrow> 'v" where
  \<comment> \<open>\<open>d[k]\<close>; a KeyError when \<open>k\<close> is absent. Every use in this program follows an
      assignment to the same key or iterates over the keys of \<open>d\<close>.\<close>
  "dict_getitem d k = the (map_of d k)"

definition dict_setitem :: "('k, 'v) dict \<Rightarrow> 'k \<Rightarrow> 'v \<Rightarrow> ('k, 'v) dict" where
  \<comment> \<open>\<open>d[k] = v\<close>\<close>
  "dict_setitem d k v = AList.update k v d"

definition dict_delitem :: "('k, 'v) dict \<Rightarrow> 'k \<Rightarrow> ('k, 'v) dict" where
  \<comment> \<open>\<open>del d[k]\<close>; the program deletes only keys that are present.\<close>
  "dict_delitem d k = AList.delete k d"

section \<open>The SparseMatrix class\<close>

record SparseMatrix =
  num_rows :: int
  num_cols :: int
  elements :: "(int \<times> int, int) dict"

text \<open>
  The two failures of the core. Both are a \<open>ValueError\<close> in the source:
  \<open>DimensionMismatch\<close> is the one raised by the dimension checks of the arithmetic,
  \<open>FormatError c\<close> the one that \<open>_read_matrix_from_file\<close> raises from the exception
  \<open>c\<close> it caught.
\<close>

datatype cause =
    IndexError  \<comment> \<open>list index out of range\<close>
  | InvalidLiteral string  \<comment> \<open>invalid literal for int() with base 10\<close>
  | NotEnoughValues nat  \<comment> \<open>not enough values to unpack (expected 3, got n)\<close>
  | TooManyValues  \<comment> \<open>too many values to unpack (expected 3)\<close>

datatype error = DimensionMismatch | FormatError cause

text \<open>
  Matrices are objects: the arithmetic allocates its result and fills it by mutation.
  The heap is the list of the objects allocated so far, a reference is an index into it.
\<close>

type_synonym ref = nat
type_synonym heap = "SparseMatrix list"

definition store_elements ::
  "ref \<Rightarrow> ((int \<times> int, int) dict \<Rightarrow> (int \<times> int, int) dict) \<Rightarrow> heap \<Rightarrow> heap" where
  \<comment> \<open>a mutation of \<open>r.elements\<close>\<close>
  "store_elements r f h = h[r := (h ! r)\<lparr>elements := f (elements (h ! r))\<rparr>]"

definition SparseMatrix_init :: "int \<Rightarrow> int \<Rightarrow> heap \<Rightarrow> ref \<times> heap" where
  \<comment> \<open>\<open>SparseMatrix(num_rows=nr, num_cols=nc)\<close>: a new object with an empty dictionary\<close>
  "SparseMatrix_init nr nc h =
     (length h, h @ [\<lparr>num_rows = nr, num_cols = nc, elements = []\<rparr>])"

definition get_element :: "ref \<Rightarrow> int \<Rightarrow> int \<Rightarrow> heap \<Rightarrow> int" where
  "get_element self row col h = dict_get (elements (h ! self)) (row, col) 0"

definition set_element :: "ref \<Rightarrow> int \<Rightarrow> int \<Rightarrow> int \<Rightarrow> heap \<Rightarrow> heap" where
  "set_element self row col val h =
     (if val \<noteq> 0 then store_elements self (\<lambda>d. dict_setitem d (row, col) val) h
      else if dict_contains (elements (h ! self)) (row, col)
      then store_elements self (\<lambda>d. dict_delitem d (row, col)) h
      else h)"

definition copy_step :: "ref \<Rightarrow> (int \<times> int) \<times> int \<Rightarrow> heap \<Rightarrow> heap" where
  \<comment> \<open>\<open>result.elements[(row, col)] = value\<close>\<close>
  "copy_step result = (\<lambda>((row, col), val) h.
     store_elements result (\<lambda>d. dict_setitem d (row, col) val) h)"

definition add_step :: "ref \<Rightarrow> (int \<times> int) \<times> int \<Rightarrow> heap \<Rightarrow> heap" where
  "add_step result = (\<lambda>((row, col), val) h.
     let h' = store_elements result
                (\<lambda>d. dict_setitem d (row, col) (get_element result row col h + val)) h
     in if dict_getitem (elements (h' ! result)) (row, col) = 0
        then store_elements result (\<lambda>d. dict_delitem d (row, col)) h'
        else h')"

definition sub_step :: "ref \<Rightarrow> (int \<times> int) \<times> int \<Rightarrow> heap \<Rightarrow> heap" where
  "sub_step result = (\<lambda>((row, col), val) h.
     set_element result row col (get_element result row col h - val) h)"

definition SparseMatrix_add :: "ref \<Rightarrow> ref \<Rightarrow> heap \<Rightarrow> (error + ref) \<times> heap" where
  "SparseMatrix_add self other h =
     (if num_rows (h ! self) \<noteq> num_rows (h ! other) \<or> num_cols (h ! self) \<noteq> num_cols (h ! other)
      then (Inl DimensionMismatch, h)
      else
        let (result, h1) = SparseMatrix_init (num_rows (h ! self)) (num_cols (h ! self)) h;
            h2 = fold (copy_step result) (elements (h1 ! self)) h1;
            h3 = fold (add_step result) (elements (h2 ! other)) h2
        in (Inr result, h3))"

definition SparseMatrix_sub :: "ref \<Rightarrow> ref \<Rightarrow> heap \<Rightarrow> (error + ref) \<times> heap" where
  "SparseMatrix_sub self other h =
     (if num_rows (h ! self) \<noteq> num_rows (h ! other) \<or> num_cols (h ! self) \<noteq> num_cols (h ! other)
      then (Inl DimensionMismatch, h)
      else
        let (result, h1) = SparseMatrix_init (num_rows (h ! self)) (num_cols (h ! self)) h;
            h2 = fold (copy_step result) (elements (h1 ! self)) h1;
            h3 = fold (sub_step result) (elements (h2 ! other)) h2
        in (Inr result, h3))"

text \<open>
  The two indexes of the multiplication are local dictionaries of dictionaries:
  \<open>group_step outer inner v\<close> is \<open>if outer not in m: m[outer] = {}\<close> followed by
  \<open>m[outer][inner] = v\<close>.
\<close>

definition group_step ::
  "int \<Rightarrow> int \<Rightarrow> int \<Rightarrow> (int, (int, int) dict) dict \<Rightarrow> (int, (int, int) dict) dict" where
  "group_step outer inner val m =
     (let m1 = (if \<not> dict_contains m outer then dict_setitem m outer [] else m)
      in dict_setitem m1 outer (dict_setitem (dict_getitem m1 outer) inner val))"

definition product_sum :: "(int, int) dict \<Rightarrow> (int, int) dict \<Rightarrow> int" where
  \<comment> \<open>\<open>sum(r.get(k, 0) * c.get(k, 0) for k in set(r) & set(c))\<close>\<close>
  "product_sum r c =
     (\<Sum>k \<in> set (dict_keys r) \<inter> set (dict_keys c). dict_get r k 0 * dict_get c k 0)"

definition mul_step ::
  "ref \<Rightarrow> (int, (int, int) dict) dict \<Rightarrow> (int, (int, int) dict) dict \<Rightarrow> int \<Rightarrow> int \<Rightarrow> heap \<Rightarrow> heap"
  where
  "mul_step result self_by_row other_by_col i j h =
     (let s = product_sum (dict_getitem self_by_row i) (dict_getitem other_by_col j)
      in if s \<noteq> 0 then store_elements result (\<lambda>d. dict_setitem d (i, j) s) h else h)"

definition SparseMatrix_mul :: "ref \<Rightarrow> ref \<Rightarrow> heap \<Rightarrow> (error + ref) \<times> heap" where
  "SparseMatrix_mul self other h =
     (if num_cols (h ! self) \<noteq> num_rows (h ! other)
      then (Inl DimensionMismatch, h)
      else
        let (result, h1) = SparseMatrix_init (num_rows (h ! self)) (num_cols (h ! other)) h;
            self_by_row = fold (\<lambda>((row, col), val). group_step row col val) (elements (h1 ! self)) [];
            other_by_col = fold (\<lambda>((row, col), val). group_step col row val) (elements (h1 ! other)) [];
            h2 = fold (\<lambda>i. fold (mul_step result self_by_row other_by_col i) (dict_keys other_by_col))
                   (dict_keys self_by_row) h1
        in (Inr result, h2))"

text \<open>Invariant I1 of a matrix: no stored entry has the value 0.\<close>

definition I1 :: "SparseMatrix \<Rightarrow> bool" where
  "I1 M = (0 \<notin> snd ` set (elements M))"

section \<open>Text: the string operations the parser and the serializer use\<close>

text \<open>
  A text is a list of characters with code points below 256. Python's integers are
  unbounded, so they are \<open>int\<close>. The conversions between integers and text are those of
  the language: the bound that recent versions of CPython put on the number of digits of
  one conversion (4300 unless configured otherwise) is not modelled.
\<close>

abbreviation NL :: char where "NL \<equiv> CHR 0x0A"
abbreviation CR :: char where "CR \<equiv> CHR 0x0D"

definition is_space :: "char \<Rightarrow> bool" where
  \<comment> \<open>the characters that \<open>str.strip()\<close> treats as whitespace\<close>
  "is_space c = (c \<in> set [CHR 0x09, CHR 0x0A, CHR 0x0B, CHR 0x0C, CHR 0x0D, CHR 0x1C,
                          CHR 0x1D, CHR 0x1E, CHR 0x1F, CHR 0x20, CHR 0x85, CHR 0xA0])"

definition is_int_space :: "char \<Rightarrow> bool" where
  \<comment> \<open>the characters that \<open>int()\<close> skips around a literal: unlike \<open>str.strip()\<close> it does
      not skip the separators 0x1C to 0x1F\<close>
  "is_int_space c = (c \<in> set [CHR 0x09, CHR 0x0A, CHR 0x0B, CHR 0x0C, CHR 0x0D, CHR 0x20,
                              CHR 0x85, CHR 0xA0])"

definition strip_chars :: "(char \<Rightarrow> bool) \<Rightarrow> string \<Rightarrow> string" where
  \<comment> \<open>\<open>s.strip(chars)\<close>: drop the characters of the set from both ends\<close>
  "strip_chars p s = rev (dropWhile p (rev (dropWhile p s)))"

definition str_strip :: "string \<Rightarrow> string" where
  \<comment> \<open>\<open>s.strip()\<close>\<close>
  "str_strip s = strip_chars is_space s"

fun str_split :: "char \<Rightarrow> string \<Rightarrow> string list" where
  \<comment> \<open>\<open>s.split(sep)\<close> for a separator of one character: never an empty list\<close>
  "str_split sep [] = [[]]"
| "str_split sep (c # cs) =
     (if c = sep then [] # str_split sep cs
      else (case str_split sep cs of [] \<Rightarrow> [[c]] | w # ws \<Rightarrow> (c # w) # ws))"

fun str_join :: "string \<Rightarrow> string list \<Rightarrow> string" where
  \<comment> \<open>\<open>sep.join(xs)\<close>\<close>
  "str_join sep [] = []"
| "str_join sep [x] = x"
| "str_join sep (x # y # ys) = x @ sep @ str_join sep (y # ys)"

fun universal_newlines :: "string \<Rightarrow> string" where
  \<comment> \<open>text mode of \<open>open(path, 'r')\<close>: \<open>\r\n\<close> and \<open>\r\<close> are read as \<open>\n\<close>\<close>
  "universal_newlines [] = []"
| "universal_newlines [c] = [if c = CR then NL else c]"
| "universal_newlines (c # d # ds) =
     (if c = CR \<and> d = NL then NL # universal_newlines ds
      else if c = CR then NL # universal_newlines (d # ds)
      else c # universal_newlines (d # ds))"

fun readlines :: "string \<Rightarrow> string list" where
  \<comment> \<open>\<open>file.readlines()\<close>: every line keeps its newline, the last one may lack it\<close>
  "readlines [] = []"
| "readlines (c # cs) =
     (if c = NL then [c] # readlines cs
      else (case readlines cs of [] \<Rightarrow> [[c]] | l # ls \<Rightarrow> (c # l) # ls))"

definition is_digit :: "char \<Rightarrow> bool" where
  "is_digit c = (c \<in> set ''0123456789'')"

definition digit_val :: "char \<Rightarrow> nat" where
  "digit_val c = of_char c - 48"

definition digit_char :: "nat \<Rightarrow> char" where
  "digit_char n = char_of (48 + n)"

fun digits :: "nat \<Rightarrow> string \<Rightarrow> nat option" where
  \<comment> \<open>the rest of a decimal literal: digits, or one underscore between two digits\<close>
  "digits acc [] = Some acc"
| "digits acc (c # cs) =
     (if is_digit c then digits (10 * acc + digit_val c) cs
      else if c = CHR ''_'' \<and> cs \<noteq> [] \<and> is_digit (hd cs) then digits acc cs
      else None)"

definition nat_literal :: "string \<Rightarrow> nat option" where
  "nat_literal s =
     (case s of [] \<Rightarrow> None
      | c # cs \<Rightarrow> if is_digit c then digits (digit_val c) cs else None)"

definition int_of_str :: "string \<Rightarrow> int option" where
  \<comment> \<open>\<open>int(s)\<close>; \<open>None\<close> is the ValueError "invalid literal for int() with base 10"\<close>
  "int_of_str s =
     (case strip_chars is_int_space s of [] \<Rightarrow> None
      | c # cs \<Rightarrow>
          if c = CHR ''-'' then map_option (\<lambda>n. - int n) (nat_literal cs)
          else if c = CHR ''+'' then map_option int (nat_literal cs)
          else map_option int (nat_literal (c # cs)))"

definition py_int :: "string \<Rightarrow> cause + int" where
  "py_int s = (case int_of_str s of None \<Rightarrow> Inl (InvalidLiteral s) | Some v \<Rightarrow> Inr v)"

fun str_nat :: "nat \<Rightarrow> string" where
  "str_nat n = (if n < 10 then [digit_char n] else str_nat (n div 10) @ [digit_char (n mod 10)])"

declare str_nat.simps [simp del]

definition str_int :: "int \<Rightarrow> string" where
  \<comment> \<open>\<open>str(i)\<close>, as an f-string formats an integer\<close>
  "str_int i = (if i < 0 then CHR ''-'' # str_nat (nat (- i)) else str_nat (nat i))"

section \<open>The parser and the serializer\<close>

definition header_value :: "string list \<Rightarrow> nat \<Rightarrow> cause + int" where
  \<comment> \<open>\<open>int(lines[n].split('=')[1].strip())\<close>\<close>
  "header_value lines n =
     (if n < length lines then
        (let parts = str_split CHR ''='' (lines ! n)
         in if 1 < length parts then py_int (str_strip (parts ! 1)) else Inl IndexError)
      else Inl IndexError)"

definition unpack_ints :: "string list \<Rightarrow> cause + int \<times> int \<times> int" where
  \<comment> \<open>\<open>row, col, value = map(int, strs)\<close>: the map is lazy, so the strings are converted
      one by one as the unpacking asks for them, three and then one more to see the end\<close>
  "unpack_ints strs =
     (case strs of [] \<Rightarrow> Inl (NotEnoughValues 0)
      | f1 # r1 \<Rightarrow>
     (case py_int f1 of Inl e \<Rightarrow> Inl e | Inr row \<Rightarrow>
     (case r1 of [] \<Rightarrow> Inl (NotEnoughValues 1)
      | f2 # r2 \<Rightarrow>
     (case py_int f2 of Inl e \<Rightarrow> Inl e | Inr col \<Rightarrow>
     (case r2 of [] \<Rightarrow> Inl (NotEnoughValues 2)
      | f3 # r3 \<Rightarrow>
     (case py_int f3 of Inl e \<Rightarrow> Inl e | Inr val \<Rightarrow>
     (case r3 of [] \<Rightarrow> Inr (row, col, val)
      | f4 # r4 \<Rightarrow>
     (case py_int f4 of Inl e \<Rightarrow> Inl e | Inr x \<Rightarrow> Inl TooManyValues))))))))"

definition read_entry :: "string \<Rightarrow> cause + (int \<times> int \<times> int) option" where
  \<comment> \<open>the body of the loop over \<open>lines[2:]\<close>: a blank line gives no entry\<close>
  "read_entry line =
     (if str_strip line \<noteq> [] then
        (let entry = strip_chars (\<lambda>c. c \<in> set [CHR ''('', CHR '')'', NL]) line
         in case unpack_ints (str_split CHR '','' entry) of
              Inl e \<Rightarrow> Inl e
            | Inr t \<Rightarrow> Inr (Some t))
      else Inr None)"

fun read_entries ::
  "string list \<Rightarrow> (int \<times> int, int) dict \<Rightarrow> cause + (int \<times> int, int) dict" where
  "read_entries [] d = Inr d"
| "read_entries (line # lines) d =
     (case read_entry line of
        Inl e \<Rightarrow> Inl e
      | Inr None \<Rightarrow> read_entries lines d
      | Inr (Some (row, col, val)) \<Rightarrow> read_entries lines (dict_setitem d (row, col) val))"

definition file_lines :: "string \<Rightarrow> string list" where
  \<comment> \<open>\<open>lines = file.readlines()\<close> on a file opened in text mode\<close>
  "file_lines text = readlines (universal_newlines text)"

definition read_matrix_from_file :: "string \<Rightarrow> error + SparseMatrix" where
  \<comment> \<open>\<open>SparseMatrix(path)\<close>, on the contents of the file: any exception of the body is
      caught and raised again as the ValueError "Input file has wrong format"\<close>
  "read_matrix_from_file text =
     (let lines = file_lines text
      in case header_value lines 0 of Inl e \<Rightarrow> Inl (FormatError e) | Inr nr \<Rightarrow>
        (case header_value lines 1 of Inl e \<Rightarrow> Inl (FormatError e) | Inr nc \<Rightarrow>
        (case read_entries (drop 2 lines) [] of Inl e \<Rightarrow> Inl (FormatError e)
         | Inr d \<Rightarrow> Inr \<lparr>num_rows = nr, num_cols = nc, elements = d\<rparr>)))"

definition entry_line :: "(int \<times> int) \<times> int \<Rightarrow> string" where
  \<comment> \<open>\<open>f"({row}, {col}, {value})"\<close>\<close>
  "entry_line = (\<lambda>((row, col), val).
     ''('' @ str_int row @ '', '' @ str_int col @ '', '' @ str_int val @ '')'')"

definition SparseMatrix_str :: "SparseMatrix \<Rightarrow> string" where
  \<comment> \<open>\<open>__str__\<close>; \<open>sorted\<close> compares the items \<open>((row, col), value)\<close> as tuples\<close>
  "SparseMatrix_str M =
     (let result = [''rows='' @ str_int (num_rows M), ''cols='' @ str_int (num_cols M)];
          result = fold (\<lambda>item result. result @ [entry_line item]) (sort (elements M)) result
      in str_join [NL] result)"

section \<open>The forms of the lines that the parser accepts\<close>

text \<open>
  What the parser asks of a header line and of an entry line, stated on the line itself:
  a header line holds an integer between its first \<open>=\<close> and the next \<open>=\<close> or the end of
  the line, whatever stands before the first \<open>=\<close>; an entry line, without the parentheses
  and the newline at its ends, is three integers separated by commas.
\<close>

definition header_token :: "string \<Rightarrow> string option" where
  "header_token line =
     (case dropWhile (\<lambda>c. c \<noteq> CHR ''='') line of
        [] \<Rightarrow> None
      | c # rest \<Rightarrow> Some (takeWhile (\<lambda>c. c \<noteq> CHR ''='') rest))"

definition assigns_int :: "string \<Rightarrow> int \<Rightarrow> bool" where
  "assigns_int line n =
     (case header_token line of None \<Rightarrow> False | Some tok \<Rightarrow> int_of_str (str_strip tok) = Some n)"

definition entry_fields :: "string \<Rightarrow> string list" where
  "entry_fields line =
     str_split CHR '','' (strip_chars (\<lambda>c. c \<in> set [CHR ''('', CHR '')'', NL]) line)"

definition three_ints :: "string \<Rightarrow> int \<times> int \<times> int \<Rightarrow> bool" where
  "three_ints line t =
     (case entry_fields line of
        [f1, f2, f3] \<Rightarrow>
          int_of_str f1 = Some (fst t) \<and> int_of_str f2 = Some (fst (snd t)) \<and>
          int_of_str f3 = Some (snd (snd t))
      | _ \<Rightarrow> False)"


section \<open>Concrete texts\<close>


definition text_overwritten_zero :: string where
  "text_overwritten_zero =
     ''rows=1'' @ [NL] @ ''cols=1'' @ [NL] @ ''(0, 0, 0)'' @ [NL] @ ''(0, 0, 5)''"

definition text_zero :: string where
  "text_zero = ''rows=1'' @ [NL] @ ''cols=1'' @ [NL] @ ''(0, 0, 0)''"




definition text_separator_entry :: string where
  \<comment> \<open>an entry line whose second field starts with the separator 0x1C\<close>
  "text_separator_entry = ''rows=2'' @ [NL] @ ''cols=2'' @ [NL] @ ''(1,'' @ [CHR 0x1C] @ ''2)''"


section \<open>The loops of the arithmetic, on the dictionary of the result\<close>

text \<open>
  The arithmetic mutates one object only, the result it has allocated. What each loop body
  does to the dictionary of that object is a function on dictionaries; the theorems below
  first reduce the operations on the heap to these functions.
\<close>

definition copy_d :: "(int \<times> int) \<times> int \<Rightarrow> (int \<times> int, int) dict \<Rightarrow> (int \<times> int, int) dict" where
  "copy_d = (\<lambda>((row, col), val) d. dict_setitem d (row, col) val)"

definition add_d :: "(int \<times> int) \<times> int \<Rightarrow> (int \<times> int, int) dict \<Rightarrow> (int \<times> int, int) dict" where
  "add_d = (\<lambda>((row, col), val) d.
     let d' = dict_setitem d (row, col) (dict_get d (row, col) 0 + val)
     in if dict_getitem d' (row, col) = 0 then dict_delitem d' (row, col) else d')"

definition sub_d :: "(int \<times> int) \<times> int \<Rightarrow> (int \<times> int, int) dict \<Rightarrow> (int \<times> int, int) dict" where
  "sub_d = (\<lambda>((row, col), val) d.
     let v = dict_get d (row, col) 0 - val
     in if v \<noteq> 0 then dict_setitem d (row, col) v
        else if dict_contains d (row, col) then dict_delitem d (row, col)
        else d)"

definition mul_d ::
  "(int, (int, int) dict) dict \<Rightarrow> (int, (int, int) dict) dict \<Rightarrow> int \<Rightarrow> int \<Rightarrow>
   (int \<times> int, int) dict \<Rightarrow> (int \<times> int, int) dict" where
  "mul_d self_by_row other_by_col i j d =
     (let s = product_sum (dict_getitem self_by_row i) (dict_getitem other_by_col j)
      in if s \<noteq> 0 then dict_setitem d (i, j) s else d)"

definition by_row :: "(int \<times> int, int) dict \<Rightarrow> (int, (int, int) dict) dict" where
  \<comment> \<open>the index \<open>self_by_row\<close> of the multiplication\<close>
  "by_row d = fold (\<lambda>((row, col), val). group_step row col val) d []"

definition by_col :: "(int \<times> int, int) dict \<Rightarrow> (int, (int, int) dict) dict" where
  \<comment> \<open>the index \<open>other_by_col\<close> of the multiplication\<close>
  "by_col d = fold (\<lambda>((row, col), val). group_step col row val) d []"

definition lookup2 :: "('a, ('b, 'v) dict) dict \<Rightarrow> 'a \<Rightarrow> 'b \<Rightarrow> 'v option" where
  \<comment> \<open>what an index holds at an outer and an inner key\<close>
  "lookup2 m i k = (case map_of m i of None \<Rightarrow> None | Some r \<Rightarrow> map_of r k)"

definition entries_sum :: "('k \<times> int) list \<Rightarrow> 'k \<Rightarrow> int" where
  \<comment> \<open>the sum of the values that a list of items gives for one key\<close>
  "entries_sum xs k = sum_list (map snd (filter (\<lambda>p. fst p = k) xs))"

definition valid :: "heap \<Rightarrow> ref \<Rightarrow> bool" where
  \<comment> \<open>\<open>r\<close> refers to an object of the heap, whose dictionary has unique keys\<close>
  "valid h r = (r < length h \<and> dict_ok (elements (h ! r)))"

section \<open>Concrete heaps\<close>

text \<open>
  \<open>heap0\<close> holds a 2 by 3 and a 3 by 2 matrix; \<open>heap1\<close> holds the matrices A, B and C of the
  scenarios: A and B are 2 by 2, C is 2 by 1.
\<close>

definition heap0 :: heap where
  "heap0 = [\<lparr>num_rows = 2, num_cols = 3, elements = [((0, 0), 1), ((1, 2), 2)]\<rparr>,
            \<lparr>num_rows = 3, num_cols = 2, elements = [((0, 0), 3), ((2, 1), 4)]\<rparr>]"

definition heap1 :: heap where
  "heap1 = [\<lparr>num_rows = 2, num_cols = 2, elements = [((0, 0), 1), ((1, 1), 2)]\<rparr>,
            \<lparr>num_rows = 2, num_cols = 2, elements = [((0, 0), 3), ((0, 1), 4)]\<rparr>,
            \<lparr>num_rows = 2, num_cols = 1, elements = [((0, 0), 5), ((1, 0), 6)]\<rparr>]"

definition heap2 :: heap where
  \<comment> \<open>two 2 by 2 matrices that store zeros\<close>
  "heap2 = [\<lparr>num_rows = 2, num_cols = 2, elements = [((0, 0), 0), ((0, 1), 3)]\<rparr>,
            \<lparr>num_rows = 2, num_cols = 2, elements = [((0, 0), 7), ((1, 0), 0), ((1, 1), 2)]\<rparr>]"

definition matrix3 :: SparseMatrix where
  \<comment> \<open>a 2 by 3 matrix whose entries are stored out of order\<close>
  "matrix3 = \<lparr>num_rows = 2, num_cols = 3,
              elements = [((1, 1), 2), ((0, 2), - 40), ((0, 0), 120)]\<rparr>"

section \<open>Facts about dictionaries\<close>

lemma map_of_setitem: "map_of (dict_setitem d k v) = (map_of d)(k \<mapsto> v)"
  by (simp add: dict_setitem_def update_conv')

lemma map_of_delitem: "map_of (dict_delitem d k) = (map_of d)(k := None)"
  by (rule ext) (simp add: dict_delitem_def delete_conv)

lemma dict_contains_map_of: "dict_contains d k \<longleftrightarrow> map_of d k \<noteq> None"
  by (simp add: dict_contains_def dict_keys_def map_of_eq_None_iff)

lemma dict_ok_setitem: "dict_ok d \<Longrightarrow> dict_ok (dict_setitem d k v)"
  by (simp add: dict_ok_def dict_setitem_def distinct_update)

lemma dict_ok_delitem: "dict_ok d \<Longrightarrow> dict_ok (dict_delitem d k)"
  by (simp add: dict_ok_def dict_delitem_def distinct_delete)

lemma getitem_setitem: "dict_getitem (dict_setitem d k v) k = v"
  by (simp add: dict_getitem_def map_of_setitem)

section \<open>From the heap to the dictionary of the result\<close>

lemma store_elements_new:
  "store_elements (length h) f (h @ [M]) = h @ [M\<lparr>elements := f (elements M)\<rparr>]"
  by (simp add: store_elements_def)

lemma get_element_new:
  "get_element (length h) row col (h @ [M]) = dict_get (elements M) (row, col) 0"
  by (simp add: get_element_def)

lemma copy_step_new:
  "copy_step (length h) x (h @ [M]) = h @ [M\<lparr>elements := copy_d x (elements M)\<rparr>]"
  by (simp add: copy_step_def copy_d_def store_elements_new split: prod.splits)

lemma add_step_new:
  "add_step (length h) x (h @ [M]) = h @ [M\<lparr>elements := add_d x (elements M)\<rparr>]"
  by (simp add: add_step_def add_d_def store_elements_new get_element_new Let_def
           split: prod.splits)

lemma sub_step_new:
  "sub_step (length h) x (h @ [M]) = h @ [M\<lparr>elements := sub_d x (elements M)\<rparr>]"
  by (simp add: sub_step_def sub_d_def set_element_def store_elements_new get_element_new Let_def
           split: prod.splits)

lemma mul_step_new:
  "mul_step (length h) r c i j (h @ [M]) = h @ [M\<lparr>elements := mul_d r c i j (elements M)\<rparr>]"
  by (simp add: mul_step_def mul_d_def store_elements_new Let_def)

lemma fold_new:
  assumes "\<And>x M. step x (h @ [M]) = h @ [M\<lparr>elements := f x (elements M)\<rparr>]"
  shows "fold step xs (h @ [M]) = h @ [M\<lparr>elements := fold f xs (elements M)\<rparr>]"
  by (induction xs arbitrary: M) (simp_all add: assms)

lemma add_result:
  assumes "self < length h" "other < length h"
    and "num_rows (h ! self) = num_rows (h ! other)" "num_cols (h ! self) = num_cols (h ! other)"
  shows "SparseMatrix_add self other h =
    (Inr (length h),
     h @ [\<lparr>num_rows = num_rows (h ! self), num_cols = num_cols (h ! self),
           elements = fold add_d (elements (h ! other)) (fold copy_d (elements (h ! self)) [])\<rparr>])"
  using assms
  by (simp add: SparseMatrix_add_def SparseMatrix_init_def Let_def nth_append
       fold_new [of "copy_step (length h)" h copy_d, OF copy_step_new]
       fold_new [of "add_step (length h)" h add_d, OF add_step_new])

lemma sub_result:
  assumes "self < length h" "other < length h"
    and "num_rows (h ! self) = num_rows (h ! other)" "num_cols (h ! self) = num_cols (h ! other)"
  shows "SparseMatrix_sub self other h =
    (Inr (length h),
     h @ [\<lparr>num_rows = num_rows (h ! self), num_cols = num_cols (h ! self),
           elements = fold sub_d (elements (h ! other)) (fold copy_d (elements (h ! self)) [])\<rparr>])"
  using assms
  by (simp add: SparseMatrix_sub_def SparseMatrix_init_def Let_def nth_append
       fold_new [of "copy_step (length h)" h copy_d, OF copy_step_new]
       fold_new [of "sub_step (length h)" h sub_d, OF sub_step_new])

lemma fold_fold_new:
  assumes "\<And>x y M. step x y (h @ [M]) = h @ [M\<lparr>elements := f x y (elements M)\<rparr>]"
  shows "fold (\<lambda>x. fold (step x) ys) xs (h @ [M]) =
         h @ [M\<lparr>elements := fold (\<lambda>x. fold (f x) ys) xs (elements M)\<rparr>]"
  by (induction xs arbitrary: M) (simp_all add: fold_new [of "step x" h "f x" for x, OF assms])

lemma mul_result:
  assumes "self < length h" "other < length h"
    and "num_cols (h ! self) = num_rows (h ! other)"
  shows "SparseMatrix_mul self other h =
    (Inr (length h),
     h @ [\<lparr>num_rows = num_rows (h ! self), num_cols = num_cols (h ! other),
           elements =
             fold (\<lambda>i. fold (mul_d (by_row (elements (h ! self))) (by_col (elements (h ! other))) i)
                          (dict_keys (by_col (elements (h ! other)))))
               (dict_keys (by_row (elements (h ! self)))) []\<rparr>])"
  using assms
  by (simp add: SparseMatrix_mul_def SparseMatrix_init_def Let_def nth_append by_row_def by_col_def
       fold_fold_new [of "mul_step (length h) r c" h "mul_d r c" for r c, OF mul_step_new])

section \<open>Queries\<close>

text \<open>
  Claim C6. \<open>get_element\<close> returns 0 at every coordinate that has no stored entry,
  whether or not the coordinate lies inside the declared dimensions. The function is
  total: it has no failure branch, so no coordinate raises an error.
\<close>

theorem get_element_absent:
  "map_of (elements (h ! m)) (r, c) = None \<Longrightarrow> get_element m r c h = 0"
  by (simp add: get_element_def dict_get_def)

theorem get_element_absent_witness:
  "map_of (elements ([\<lparr>num_rows = 2, num_cols = 2, elements = [((0, 0), 1)]\<rparr>] ! 0)) (5, 7) = None
   \<and> get_element 0 5 7 [\<lparr>num_rows = 2, num_cols = 2, elements = [((0, 0), 1)]\<rparr>] = 0"
  using get_element_absent [of "[\<lparr>num_rows = 2, num_cols = 2, elements = [((0, 0), 1)]\<rparr>]" 0 5 7]
  by simp

section \<open>Dimension checks and the frame of the arithmetic\<close>

lemma add_mismatch:
  "num_rows (h ! a) \<noteq> num_rows (h ! b) \<or> num_cols (h ! a) \<noteq> num_cols (h ! b) \<Longrightarrow>
   SparseMatrix_add a b h = (Inl DimensionMismatch, h)"
  by (auto simp add: SparseMatrix_add_def)

lemma sub_mismatch:
  "num_rows (h ! a) \<noteq> num_rows (h ! b) \<or> num_cols (h ! a) \<noteq> num_cols (h ! b) \<Longrightarrow>
   SparseMatrix_sub a b h = (Inl DimensionMismatch, h)"
  by (auto simp add: SparseMatrix_sub_def)

lemma mul_mismatch:
  "num_cols (h ! a) \<noteq> num_rows (h ! b) \<Longrightarrow> SparseMatrix_mul a b h = (Inl DimensionMismatch, h)"
  by (simp add: SparseMatrix_mul_def)

lemma add_match:
  "num_rows (h ! a) = num_rows (h ! b) \<Longrightarrow> num_cols (h ! a) = num_cols (h ! b) \<Longrightarrow>
   fst (SparseMatrix_add a b h) = Inr (length h)"
  by (simp add: SparseMatrix_add_def SparseMatrix_init_def Let_def)

lemma sub_match:
  "num_rows (h ! a) = num_rows (h ! b) \<Longrightarrow> num_cols (h ! a) = num_cols (h ! b) \<Longrightarrow>
   fst (SparseMatrix_sub a b h) = Inr (length h)"
  by (simp add: SparseMatrix_sub_def SparseMatrix_init_def Let_def)

lemma mul_match:
  "num_cols (h ! a) = num_rows (h ! b) \<Longrightarrow> fst (SparseMatrix_mul a b h) = Inr (length h)"
  by (simp add: SparseMatrix_mul_def SparseMatrix_init_def Let_def)

text \<open>
  Claim C2. Addition and subtraction fail with DimensionMismatch exactly when the
  operands differ in \<open>num_rows\<close> or in \<open>num_cols\<close>, multiplication exactly when
  \<open>num_cols\<close> of the left operand differs from \<open>num_rows\<close> of the right one. Whenever one
  of the three fails, the error is DimensionMismatch, no reference to a result is
  returned and the heap is the one before the call: nothing was allocated and the
  operands are unchanged.
\<close>

theorem dimension_mismatch_iff:
  "(fst (SparseMatrix_add a b h) = Inl DimensionMismatch \<longleftrightarrow>
      num_rows (h ! a) \<noteq> num_rows (h ! b) \<or> num_cols (h ! a) \<noteq> num_cols (h ! b)) \<and>
   (fst (SparseMatrix_sub a b h) = Inl DimensionMismatch \<longleftrightarrow>
      num_rows (h ! a) \<noteq> num_rows (h ! b) \<or> num_cols (h ! a) \<noteq> num_cols (h ! b)) \<and>
   (fst (SparseMatrix_mul a b h) = Inl DimensionMismatch \<longleftrightarrow>
      num_cols (h ! a) \<noteq> num_rows (h ! b)) \<and>
   (\<forall>op \<in> {SparseMatrix_add, SparseMatrix_sub, SparseMatrix_mul}. \<forall>e.
      fst (op a b h) = Inl e \<longrightarrow> e = DimensionMismatch \<and> op a b h = (Inl DimensionMismatch, h))"
proof -
  have A: "fst (SparseMatrix_add a b h) = Inl e \<Longrightarrow>
           e = DimensionMismatch \<and> SparseMatrix_add a b h = (Inl DimensionMismatch, h)" for e
    using add_mismatch [of h a b] add_match [of h a b] by (cases "num_rows (h ! a) = num_rows (h ! b) \<and> num_cols (h ! a) = num_cols (h ! b)") auto
  have S: "fst (SparseMatrix_sub a b h) = Inl e \<Longrightarrow>
           e = DimensionMismatch \<and> SparseMatrix_sub a b h = (Inl DimensionMismatch, h)" for e
    using sub_mismatch [of h a b] sub_match [of h a b] by (cases "num_rows (h ! a) = num_rows (h ! b) \<and> num_cols (h ! a) = num_cols (h ! b)") auto
  have M: "fst (SparseMatrix_mul a b h) = Inl e \<Longrightarrow>
           e = DimensionMismatch \<and> SparseMatrix_mul a b h = (Inl DimensionMismatch, h)" for e
    using mul_mismatch [of h a b] mul_match [of h a b] by (cases "num_cols (h ! a) = num_rows (h ! b)") auto
  have A': "fst (SparseMatrix_add a b h) = Inl DimensionMismatch \<longleftrightarrow>
      num_rows (h ! a) \<noteq> num_rows (h ! b) \<or> num_cols (h ! a) \<noteq> num_cols (h ! b)"
    using add_mismatch [of h a b] add_match [of h a b] by auto
  have S': "fst (SparseMatrix_sub a b h) = Inl DimensionMismatch \<longleftrightarrow>
      num_rows (h ! a) \<noteq> num_rows (h ! b) \<or> num_cols (h ! a) \<noteq> num_cols (h ! b)"
    using sub_mismatch [of h a b] sub_match [of h a b] by auto
  have M': "fst (SparseMatrix_mul a b h) = Inl DimensionMismatch \<longleftrightarrow>
      num_cols (h ! a) \<noteq> num_rows (h ! b)"
    using mul_mismatch [of h a b] mul_match [of h a b] by auto
  show ?thesis using A S M A' S' M' by blast
qed

theorem dimension_mismatch_iff_witness:
  "num_rows (heap0 ! 0) \<noteq> num_rows (heap0 ! 1) \<and>
   num_cols (heap0 ! 1) \<noteq> num_rows (heap0 ! 1) \<and>
   SparseMatrix_add 0 1 heap0 = (Inl DimensionMismatch, heap0) \<and>
   SparseMatrix_sub 0 1 heap0 = (Inl DimensionMismatch, heap0) \<and>
   SparseMatrix_mul 1 1 heap0 = (Inl DimensionMismatch, heap0)"
  using dimension_mismatch_iff [of 0 1 heap0] dimension_mismatch_iff [of 1 1 heap0]
  by (simp add: heap0_def)

text \<open>
  Claim C9. When addition, subtraction or multiplication succeeds, the reference it
  returns is a new one, the heap has grown by exactly that object, and every object
  that existed before the call, the two operands among them, is what it was:
  dimensions and dictionary.
\<close>

theorem arithmetic_frame:
  assumes "a < length h" "b < length h"
    and "op \<in> {SparseMatrix_add, SparseMatrix_sub, SparseMatrix_mul}"
    and "op a b h = (Inr r, h')"
  shows "r = length h \<and> length h' = Suc (length h) \<and> take (length h) h' = h \<and>
         h' ! a = h ! a \<and> h' ! b = h ! b"
proof -
  consider "op = SparseMatrix_add" | "op = SparseMatrix_sub" | "op = SparseMatrix_mul"
    using assms(3) by blast
  then have "\<exists>M. op a b h = (Inr (length h), h @ [M])"
  proof cases
    case 1
    with assms(4) add_mismatch [of h a b]
    have "num_rows (h ! a) = num_rows (h ! b) \<and> num_cols (h ! a) = num_cols (h ! b)" by auto
    with 1 add_result [OF assms(1,2)] show ?thesis by simp
  next
    case 2
    with assms(4) sub_mismatch [of h a b]
    have "num_rows (h ! a) = num_rows (h ! b) \<and> num_cols (h ! a) = num_cols (h ! b)" by auto
    with 2 sub_result [OF assms(1,2)] show ?thesis by simp
  next
    case 3
    with assms(4) mul_mismatch [of h a b]
    have "num_cols (h ! a) = num_rows (h ! b)" by auto
    with 3 mul_result [OF assms(1,2)] show ?thesis by simp
  qed
  then obtain M where "r = length h" "h' = h @ [M]" using assms(4) by auto
  then show ?thesis using assms(1,2) by (simp add: nth_append)
qed

theorem arithmetic_frame_witness:
  "(0::nat) < length heap1 \<and> (1::nat) < length heap1 \<and> (2::nat) < length heap1 \<and>
   SparseMatrix_add 0 1 heap1 =
     (Inr 3, heap1 @ [\<lparr>num_rows = 2, num_cols = 2,
                       elements = [((0, 0), 4), ((1, 1), 2), ((0, 1), 4)]\<rparr>]) \<and>
   SparseMatrix_sub 0 1 heap1 =
     (Inr 3, heap1 @ [\<lparr>num_rows = 2, num_cols = 2,
                       elements = [((0, 0), - 2), ((1, 1), 2), ((0, 1), - 4)]\<rparr>]) \<and>
   SparseMatrix_mul 0 2 heap1 =
     (Inr 3, heap1 @ [\<lparr>num_rows = 2, num_cols = 1,
                       elements = [((0, 0), 5), ((1, 0), 12)]\<rparr>]) \<and>
   3 = length heap1 \<and>
   (heap1 @ [\<lparr>num_rows = 2, num_cols = 1, elements = [((0, 0), 5), ((1, 0), 12)]\<rparr>]) ! 0 = heap1 ! 0 \<and>
   (heap1 @ [\<lparr>num_rows = 2, num_cols = 1, elements = [((0, 0), 5), ((1, 0), 12)]\<rparr>]) ! 2 = heap1 ! 2"
proof -
  have l: "(0::nat) < length heap1" "(1::nat) < length heap1" "(2::nat) < length heap1"
    by (simp_all add: heap1_def)
  have a: "SparseMatrix_add 0 1 heap1 =
     (Inr 3, heap1 @ [\<lparr>num_rows = 2, num_cols = 2,
                       elements = [((0, 0), 4), ((1, 1), 2), ((0, 1), 4)]\<rparr>])"
    by code_simp
  have s: "SparseMatrix_sub 0 1 heap1 =
     (Inr 3, heap1 @ [\<lparr>num_rows = 2, num_cols = 2,
                       elements = [((0, 0), - 2), ((1, 1), 2), ((0, 1), - 4)]\<rparr>])"
    by code_simp
  have m: "SparseMatrix_mul 0 2 heap1 =
     (Inr 3, heap1 @ [\<lparr>num_rows = 2, num_cols = 1,
                       elements = [((0, 0), 5), ((1, 0), 12)]\<rparr>])"
    by code_simp
  from arithmetic_frame [where op = SparseMatrix_add, OF l(1) l(2) _ a]
    arithmetic_frame [where op = SparseMatrix_sub, OF l(1) l(2) _ s]
    arithmetic_frame [where op = SparseMatrix_mul, OF l(1) l(3) _ m] l a s m
  show ?thesis by simp
qed

section \<open>The loops of addition and subtraction\<close>

lemma dict_get_setitem:
  "dict_get (dict_setitem d k v) k' x = (if k' = k then v else dict_get d k' x)"
  by (simp add: dict_get_def map_of_setitem)

lemma dict_get_delitem:
  "dict_get (dict_delitem d k) k' x = (if k' = k then x else dict_get d k' x)"
  by (simp add: dict_get_def map_of_delitem)

lemma setitem_fresh: "k \<notin> fst ` set d \<Longrightarrow> dict_setitem d k v = d @ [(k, v)]"
  unfolding dict_setitem_def by (induction d) auto

lemma fold_copy_d_append:
  "distinct (map fst (d @ xs)) \<Longrightarrow> fold copy_d xs d = d @ xs"
proof (induction xs arbitrary: d)
  case Nil
  then show ?case by simp
next
  case (Cons x xs)
  obtain k v where x: "x = (k, v)" by (cases x)
  with Cons.prems have "k \<notin> fst ` set d" by auto
  then have "copy_d x d = d @ [x]"
    by (cases k) (simp add: x copy_d_def setitem_fresh)
  moreover have "distinct (map fst ((d @ [x]) @ xs))" using Cons.prems by simp
  ultimately show ?case using Cons.IH [of "d @ [x]"] by simp
qed

lemma fold_copy_d: "dict_ok xs \<Longrightarrow> fold copy_d xs [] = xs"
  using fold_copy_d_append [of "[]" xs] by (simp add: dict_ok_def)

lemma set_setitem: "set (dict_setitem d k v) \<subseteq> insert (k, v) (set d)"
  unfolding dict_setitem_def by (induction d) auto

lemma set_delitem: "set (dict_delitem d k) \<subseteq> set d"
  by (auto simp add: dict_delitem_def AList.delete_eq)

lemma delitem_setitem: "dict_delitem (dict_setitem d k v) k = dict_delitem d k"
  by (simp add: dict_delitem_def dict_setitem_def delete_update_same)

lemma set_copy_d: "set (copy_d x d) \<subseteq> insert x (set d)"
  using set_setitem [of d "fst x" "snd x"] by (cases x) (auto simp add: copy_d_def)

lemma add_d_cases:
  "add_d (k, v) d =
     (if dict_get d k 0 + v = 0 then dict_delitem d k else dict_setitem d k (dict_get d k 0 + v))"
  by (cases k) (simp add: add_d_def Let_def getitem_setitem delitem_setitem)

lemma sub_d_cases:
  "sub_d (k, v) d =
     (if dict_get d k 0 - v \<noteq> 0 then dict_setitem d k (dict_get d k 0 - v)
      else if dict_contains d k then dict_delitem d k else d)"
  by (cases k) (simp add: sub_d_def Let_def)

lemma set_add_d: "set (add_d x d) \<subseteq> set d \<union> {p. snd p \<noteq> 0}"
proof (cases x)
  case (Pair k v)
  show ?thesis
  proof (cases "dict_get d k 0 + v = 0")
    case True
    then show ?thesis using set_delitem [of d k] by (auto simp add: Pair add_d_cases)
  next
    case False
    then show ?thesis
      using set_setitem [of d k "dict_get d k 0 + v"] by (auto simp add: Pair add_d_cases)
  qed
qed

lemma set_sub_d: "set (sub_d x d) \<subseteq> set d \<union> {p. snd p \<noteq> 0}"
proof (cases x)
  case (Pair k v)
  show ?thesis
  proof (cases "dict_get d k 0 - v = 0")
    case True
    then show ?thesis using set_delitem [of d k] by (auto simp add: Pair sub_d_cases)
  next
    case False
    then show ?thesis
      using set_setitem [of d k "dict_get d k 0 - v"] by (auto simp add: Pair sub_d_cases)
  qed
qed

lemma fold_subset:
  "(\<And>x d. x \<in> set xs \<Longrightarrow> set (f x d) \<subseteq> set d \<union> S) \<Longrightarrow> set (fold f xs d) \<subseteq> set d \<union> S"
proof (induction xs arbitrary: d)
  case Nil
  then show ?case by simp
next
  case (Cons x xs)
  have "set (fold f xs (f x d)) \<subseteq> set (f x d) \<union> S"
    by (rule Cons.IH) (simp add: Cons.prems)
  moreover have "set (f x d) \<subseteq> set d \<union> S"
    by (rule Cons.prems) simp
  ultimately show ?case by auto
qed

lemma dict_ok_copy_d: "dict_ok d \<Longrightarrow> dict_ok (copy_d x d)"
  by (simp add: copy_d_def dict_ok_setitem split: prod.splits)

lemma dict_ok_add_d: "dict_ok d \<Longrightarrow> dict_ok (add_d x d)"
  by (cases x) (simp add: add_d_cases dict_ok_setitem dict_ok_delitem)

lemma dict_ok_sub_d: "dict_ok d \<Longrightarrow> dict_ok (sub_d x d)"
  by (cases x) (simp add: sub_d_cases dict_ok_setitem dict_ok_delitem)

lemma dict_ok_fold:
  assumes "\<And>x d. dict_ok d \<Longrightarrow> dict_ok (f x d)"
  shows "dict_ok d \<Longrightarrow> dict_ok (fold f xs d)"
  by (induction xs arbitrary: d) (simp_all add: assms)

lemma dict_get_absent: "\<not> dict_contains d k \<Longrightarrow> dict_get d k x = x"
  by (simp add: dict_contains_map_of dict_get_def)

lemma dict_get_add_d:
  "dict_get (add_d x d) k 0 = dict_get d k 0 + (if fst x = k then snd x else 0)"
  by (cases x) (simp add: add_d_cases dict_get_setitem dict_get_delitem)

lemma dict_get_sub_d:
  "dict_get (sub_d x d) k 0 = dict_get d k 0 - (if fst x = k then snd x else 0)"
  by (cases x) (simp add: sub_d_cases dict_get_setitem dict_get_delitem dict_get_absent)

lemma dict_get_fold_add_d:
  "dict_get (fold add_d xs d) k 0 = dict_get d k 0 + entries_sum xs k"
  by (induction xs arbitrary: d) (simp_all add: entries_sum_def dict_get_add_d)

lemma dict_get_fold_sub_d:
  "dict_get (fold sub_d xs d) k 0 = dict_get d k 0 - entries_sum xs k"
  by (induction xs arbitrary: d) (simp_all add: entries_sum_def dict_get_sub_d)

section \<open>Addition and subtraction\<close>

text \<open>
  Claim C5. For operands of equal dimensions that both satisfy I1, the matrix that
  addition returns and the matrix that subtraction returns satisfy I1: no stored entry
  of either result is 0. (The proof uses I1 of the left operand only, whose entries are
  copied as they are.)
\<close>

theorem add_sub_preserve_I1:
  assumes "a < length h" "b < length h"
    and "num_rows (h ! a) = num_rows (h ! b)" "num_cols (h ! a) = num_cols (h ! b)"
    and "I1 (h ! a)" "I1 (h ! b)"
  shows "(\<exists>r h'. SparseMatrix_add a b h = (Inr r, h') \<and> I1 (h' ! r)) \<and>
         (\<exists>r h'. SparseMatrix_sub a b h = (Inr r, h') \<and> I1 (h' ! r))"
proof -
  let ?A = "elements (h ! a)" and ?B = "elements (h ! b)"
  have A: "set ?A \<subseteq> {p. snd p \<noteq> 0}"
    using assms(5) by (auto simp add: I1_def image_iff)
  have "set (fold copy_d ?A []) \<subseteq> set [] \<union> {p. snd p \<noteq> 0}"
  proof (rule fold_subset)
    fix x d assume "x \<in> set ?A"
    with A set_copy_d [of x d] show "set (copy_d x d) \<subseteq> set d \<union> {p. snd p \<noteq> 0}" by auto
  qed
  then have c: "set (fold copy_d ?A []) \<subseteq> {p. snd p \<noteq> 0}" by simp
  have "set (fold add_d ?B (fold copy_d ?A [])) \<subseteq> set (fold copy_d ?A []) \<union> {p. snd p \<noteq> 0}"
    by (rule fold_subset) (rule set_add_d)
  with c have ra: "set (fold add_d ?B (fold copy_d ?A [])) \<subseteq> {p. snd p \<noteq> 0}" by blast
  have "set (fold sub_d ?B (fold copy_d ?A [])) \<subseteq> set (fold copy_d ?A []) \<union> {p. snd p \<noteq> 0}"
    by (rule fold_subset) (rule set_sub_d)
  with c have rs: "set (fold sub_d ?B (fold copy_d ?A [])) \<subseteq> {p. snd p \<noteq> 0}" by blast
  have nz: "set d \<subseteq> {p. snd p \<noteq> 0} \<Longrightarrow> (0::int) \<notin> snd ` set d" for d :: "(int \<times> int, int) dict"
    by auto
  from nz [OF ra] nz [OF rs] show ?thesis
    by (simp add: add_result [OF assms(1-4)] sub_result [OF assms(1-4)] I1_def)
qed

theorem add_sub_preserve_I1_witness:
  "(0::nat) < length heap1 \<and> (1::nat) < length heap1 \<and>
   num_rows (heap1 ! 0) = num_rows (heap1 ! 1) \<and> num_cols (heap1 ! 0) = num_cols (heap1 ! 1) \<and>
   I1 (heap1 ! 0) \<and> I1 (heap1 ! 1) \<and>
   (\<exists>r h'. SparseMatrix_add 0 1 heap1 = (Inr r, h') \<and> I1 (h' ! r)) \<and>
   (\<exists>r h'. SparseMatrix_sub 0 1 heap1 = (Inr r, h') \<and> I1 (h' ! r))"
proof -
  have p: "(0::nat) < length heap1" "(1::nat) < length heap1"
    "num_rows (heap1 ! 0) = num_rows (heap1 ! 1)" "num_cols (heap1 ! 0) = num_cols (heap1 ! 1)"
    "I1 (heap1 ! 0)" "I1 (heap1 ! 1)"
    by (simp_all add: heap1_def I1_def)
  from add_sub_preserve_I1 [OF p] p show ?thesis by simp
qed

text \<open>
  Claim C4. For operands A and B of equal dimensions, subtracting B from the sum of A
  and B gives a matrix that is element-wise equal to A: both operations succeed and
  \<open>get_element\<close> of the final result equals \<open>get_element\<close> of A at every coordinate.
  The operands are objects of the heap whose dictionaries have unique keys.
\<close>

theorem sub_add_cancel:
  assumes "valid h a" "valid h b"
    and "num_rows (h ! a) = num_rows (h ! b)" "num_cols (h ! a) = num_cols (h ! b)"
  shows "\<exists>s h1 r h2. SparseMatrix_add a b h = (Inr s, h1) \<and>
           SparseMatrix_sub s b h1 = (Inr r, h2) \<and>
           (\<forall>row col. get_element r row col h2 = get_element a row col h)"
proof -
  let ?A = "elements (h ! a)" and ?B = "elements (h ! b)"
  let ?S = "\<lparr>num_rows = num_rows (h ! a), num_cols = num_cols (h ! a),
             elements = fold add_d ?B ?A\<rparr>"
  let ?h1 = "h @ [?S]"
  have la: "a < length h" and lb: "b < length h" and okA: "dict_ok ?A"
    using assms(1,2) by (simp_all add: valid_def)
  have add: "SparseMatrix_add a b h = (Inr (length h), ?h1)"
    by (simp add: add_result [OF la lb assms(3,4)] fold_copy_d [OF okA])
  have okS: "dict_ok (fold add_d ?B ?A)"
    by (rule dict_ok_fold [OF dict_ok_add_d okA])
  have l1: "length h < length ?h1" "b < length ?h1" using lb by simp_all
  have d1: "num_rows (?h1 ! length h) = num_rows (?h1 ! b)"
    "num_cols (?h1 ! length h) = num_cols (?h1 ! b)"
    using lb assms(3,4) by (simp_all add: nth_append)
  let ?R = "\<lparr>num_rows = num_rows (h ! a), num_cols = num_cols (h ! a),
             elements = fold sub_d ?B (fold add_d ?B ?A)\<rparr>"
  have sub: "SparseMatrix_sub (length h) b ?h1 = (Inr (length ?h1), ?h1 @ [?R])"
    using lb by (simp add: sub_result [OF l1 d1] fold_copy_d [OF okS] nth_append)
  have "get_element (length ?h1) row col (?h1 @ [?R]) = get_element a row col h" for row col
    unfolding get_element_new
    by (simp add: get_element_def dict_get_fold_sub_d dict_get_fold_add_d)
  with add sub show ?thesis by blast
qed

theorem sub_add_cancel_witness:
  "valid heap1 0 \<and> valid heap1 1 \<and>
   num_rows (heap1 ! 0) = num_rows (heap1 ! 1) \<and> num_cols (heap1 ! 0) = num_cols (heap1 ! 1) \<and>
   (\<exists>s h1 r h2. SparseMatrix_add 0 1 heap1 = (Inr s, h1) \<and>
           SparseMatrix_sub s 1 h1 = (Inr r, h2) \<and>
           (\<forall>row col. get_element r row col h2 = get_element 0 row col heap1))"
proof -
  have p: "valid heap1 0" "valid heap1 1"
    "num_rows (heap1 ! 0) = num_rows (heap1 ! 1)" "num_cols (heap1 ! 0) = num_cols (heap1 ! 1)"
    by (simp_all add: heap1_def valid_def dict_ok_def)
  from sub_add_cancel [OF p] p show ?thesis by simp
qed

section \<open>Multiplication\<close>

lemma set_mul_d: "set (mul_d R C i j d) \<subseteq> set d \<union> {p. snd p \<noteq> 0}"
  using set_setitem [of d "(i, j)" "product_sum (dict_getitem R i) (dict_getitem C j)"]
  by (auto simp add: mul_d_def Let_def)

lemma set_mul_loops:
  "set (fold (\<lambda>i. fold (mul_d R C i) js) is d) \<subseteq> set d \<union> {p. snd p \<noteq> 0}"
proof (rule fold_subset)
  fix i d
  show "set (fold (mul_d R C i) js d) \<subseteq> set d \<union> {p. snd p \<noteq> 0}"
    by (rule fold_subset) (rule set_mul_d)
qed

text \<open>
  Claim C10. Whenever the inner dimensions agree, the matrix that multiplication
  returns satisfies I1, whatever the operands store: nothing is assumed about zeros
  among their entries.
\<close>

theorem mul_result_I1:
  assumes "a < length h" "b < length h" "num_cols (h ! a) = num_rows (h ! b)"
  shows "\<exists>r h'. SparseMatrix_mul a b h = (Inr r, h') \<and> I1 (h' ! r)"
proof -
  have "(0::int) \<notin> snd ` set (fold (\<lambda>i. fold (mul_d R C i) js) is [])" for R C js "is"
    using set_mul_loops [of R C js "is" "[]"] by auto
  then show ?thesis
    by (simp add: mul_result [OF assms] I1_def)
qed

theorem mul_result_I1_witness:
  "(0::nat) < length heap2 \<and> (1::nat) < length heap2 \<and>
   num_cols (heap2 ! 0) = num_rows (heap2 ! 1) \<and> \<not> I1 (heap2 ! 0) \<and> \<not> I1 (heap2 ! 1) \<and>
   (\<exists>r h'. SparseMatrix_mul 0 1 heap2 = (Inr r, h') \<and> I1 (h' ! r))"
proof -
  have p: "(0::nat) < length heap2" "(1::nat) < length heap2"
    "num_cols (heap2 ! 0) = num_rows (heap2 ! 1)"
    by (simp_all add: heap2_def)
  have "\<not> I1 (heap2 ! 0)" "\<not> I1 (heap2 ! 1)" by (simp_all add: heap2_def I1_def)
  with mul_result_I1 [OF p] p show ?thesis by simp
qed

lemma map_of_group_step:
  "map_of (group_step outer inner v m) =
     (map_of m)(outer \<mapsto> dict_setitem (case map_of m outer of None \<Rightarrow> [] | Some r \<Rightarrow> r) inner v)"
  by (cases "map_of m outer")
     (simp_all add: group_step_def Let_def dict_contains_map_of map_of_setitem dict_getitem_def)

lemma lookup2_group_step:
  "lookup2 (group_step outer inner v m) i k =
     (if i = outer \<and> k = inner then Some v else lookup2 m i k)"
  by (cases "map_of m outer") (simp_all add: lookup2_def map_of_group_step map_of_setitem)

lemma keys_group_step:
  "set (dict_keys (group_step outer inner v m)) = insert outer (set (dict_keys m))"
proof -
  have "dom (map_of (group_step outer inner v m)) = insert outer (dom (map_of m))"
    by (simp add: map_of_group_step)
  then show ?thesis by (simp add: dict_keys_def dom_map_of_conv_image_fst)
qed

lemma lookup2_by_row_fold:
  "distinct (map fst xs) \<Longrightarrow>
   lookup2 (fold (\<lambda>((row, col), v). group_step row col v) xs m) i k =
     (case map_of xs (i, k) of Some v \<Rightarrow> Some v | None \<Rightarrow> lookup2 m i k)"
proof (induction xs arbitrary: m)
  case Nil
  then show ?case by simp
next
  case (Cons x xs)
  obtain row col v where x: "x = ((row, col), v)" by (cases x) auto
  from Cons.prems have "map_of xs (row, col) = None"
    by (simp add: x map_of_eq_None_iff)
  with Cons show ?case
    by (auto simp add: x lookup2_group_step split: option.splits)
qed

lemma lookup2_by_col_fold:
  "distinct (map fst xs) \<Longrightarrow>
   lookup2 (fold (\<lambda>((row, col), v). group_step col row v) xs m) j k =
     (case map_of xs (k, j) of Some v \<Rightarrow> Some v | None \<Rightarrow> lookup2 m j k)"
proof (induction xs arbitrary: m)
  case Nil
  then show ?case by simp
next
  case (Cons x xs)
  obtain row col v where x: "x = ((row, col), v)" by (cases x) auto
  from Cons.prems have "map_of xs (row, col) = None"
    by (simp add: x map_of_eq_None_iff)
  with Cons show ?case
    by (auto simp add: x lookup2_group_step split: option.splits)
qed

lemma lookup2_empty: "lookup2 [] i k = None"
  by (simp add: lookup2_def)

lemma lookup2_by_row: "dict_ok d \<Longrightarrow> lookup2 (by_row d) i k = map_of d (i, k)"
  using lookup2_by_row_fold [of d "[]" i k]
  by (simp add: by_row_def dict_ok_def lookup2_empty split: option.splits)

lemma lookup2_by_col: "dict_ok d \<Longrightarrow> lookup2 (by_col d) j k = map_of d (k, j)"
  using lookup2_by_col_fold [of d "[]" j k]
  by (simp add: by_col_def dict_ok_def lookup2_empty split: option.splits)

lemma keys_by_row_fold:
  "set (dict_keys (fold (\<lambda>((row, col), v). group_step row col v) xs m)) =
     set (dict_keys m) \<union> (fst \<circ> fst) ` set xs"
  by (induction xs arbitrary: m) (auto simp add: keys_group_step split: prod.splits)

lemma keys_by_col_fold:
  "set (dict_keys (fold (\<lambda>((row, col), v). group_step col row v) xs m)) =
     set (dict_keys m) \<union> (snd \<circ> fst) ` set xs"
  by (induction xs arbitrary: m) (auto simp add: keys_group_step split: prod.splits)

lemma keys_by_row: "set (dict_keys (by_row d)) = (fst \<circ> fst) ` set d"
  using keys_by_row_fold [of d "[]"] by (simp add: by_row_def) (simp add: dict_keys_def)

lemma keys_by_col: "set (dict_keys (by_col d)) = (snd \<circ> fst) ` set d"
  using keys_by_col_fold [of d "[]"] by (simp add: by_col_def) (simp add: dict_keys_def)

lemma map_of_mul_d:
  "map_of (mul_d R C i j d) (i', j') =
     (if i' = i \<and> j' = j \<and> product_sum (dict_getitem R i) (dict_getitem C j) \<noteq> 0
      then Some (product_sum (dict_getitem R i) (dict_getitem C j))
      else map_of d (i', j'))"
  by (simp add: mul_d_def Let_def map_of_setitem)

lemma map_of_mul_inner:
  "map_of (fold (mul_d R C i) js d) (i', j') =
     (if i' = i \<and> j' \<in> set js \<and> product_sum (dict_getitem R i) (dict_getitem C j') \<noteq> 0
      then Some (product_sum (dict_getitem R i) (dict_getitem C j'))
      else map_of d (i', j'))"
  by (induction js arbitrary: d) (auto simp add: map_of_mul_d)

lemma map_of_mul_loops:
  "map_of (fold (\<lambda>i. fold (mul_d R C i) js) is d) (i', j') =
     (if i' \<in> set is \<and> j' \<in> set js \<and> product_sum (dict_getitem R i') (dict_getitem C j') \<noteq> 0
      then Some (product_sum (dict_getitem R i') (dict_getitem C j'))
      else map_of d (i', j'))"
  by (induction "is" arbitrary: d) (auto simp add: map_of_mul_inner)

lemma product_sum_support:
  assumes "finite K" "dom (map_of r) \<inter> dom (map_of c) \<subseteq> K"
  shows "product_sum r c = (\<Sum>k\<in>K. dict_get r k 0 * dict_get c k 0)"
proof -
  have keys: "set (dict_keys r) \<inter> set (dict_keys c) = dom (map_of r) \<inter> dom (map_of c)"
    by (simp add: dict_keys_def dom_map_of_conv_image_fst)
  have "(\<Sum>k\<in>dom (map_of r) \<inter> dom (map_of c). dict_get r k 0 * dict_get c k 0) =
        (\<Sum>k\<in>K. dict_get r k 0 * dict_get c k 0)"
  proof (rule sum.mono_neutral_left [OF assms])
    show "\<forall>k\<in>K - dom (map_of r) \<inter> dom (map_of c). dict_get r k 0 * dict_get c k 0 = 0"
      by (auto simp add: dict_get_def dom_def split: option.splits)
  qed
  then show ?thesis by (simp add: product_sum_def keys)
qed

lemma row_of_index:
  assumes "dict_ok d" "i \<in> set (dict_keys (by_row d))"
  shows "map_of (dict_getitem (by_row d) i) k = map_of d (i, k)"
proof -
  from assms(2) obtain r where r: "map_of (by_row d) i = Some r"
    using dict_contains_map_of [of "by_row d" i] by (auto simp add: dict_contains_def)
  with lookup2_by_row [OF assms(1), of i k] show ?thesis
    by (simp add: lookup2_def dict_getitem_def)
qed

lemma col_of_index:
  assumes "dict_ok d" "j \<in> set (dict_keys (by_col d))"
  shows "map_of (dict_getitem (by_col d) j) k = map_of d (k, j)"
proof -
  from assms(2) obtain c where c: "map_of (by_col d) j = Some c"
    using dict_contains_map_of [of "by_col d" j] by (auto simp add: dict_contains_def)
  with lookup2_by_col [OF assms(1), of j k] show ?thesis
    by (simp add: lookup2_def dict_getitem_def)
qed

lemma no_row: "i \<notin> set (dict_keys (by_row d)) \<Longrightarrow> map_of d (i, k) = None"
  by (force simp add: keys_by_row map_of_eq_None_iff image_iff)

lemma no_col: "j \<notin> set (dict_keys (by_col d)) \<Longrightarrow> map_of d (k, j) = None"
  by (force simp add: keys_by_col map_of_eq_None_iff image_iff)

lemma mul_entry:
  assumes A: "dict_ok A" and B: "dict_ok B" and K: "finite K"
    and sub: "{k. dict_contains A (i, k) \<and> dict_contains B (k, j)} \<subseteq> K"
  defines "E \<equiv> fold (\<lambda>i. fold (mul_d (by_row A) (by_col B) i) (dict_keys (by_col B)))
                  (dict_keys (by_row A)) []"
    and "S \<equiv> (\<Sum>k\<in>K. dict_get A (i, k) 0 * dict_get B (k, j) 0)"
  shows "map_of E (i, j) = (if S \<noteq> 0 then Some S else None)"
proof (cases "i \<in> set (dict_keys (by_row A)) \<and> j \<in> set (dict_keys (by_col B))")
  case True
  let ?r = "dict_getitem (by_row A) i" and ?c = "dict_getitem (by_col B) j"
  have r: "map_of ?r k = map_of A (i, k)" for k using row_of_index [OF A] True by simp
  have c: "map_of ?c k = map_of B (k, j)" for k using col_of_index [OF B] True by simp
  have "dom (map_of ?r) \<inter> dom (map_of ?c) \<subseteq> K"
    using sub by (auto simp add: r c dict_contains_map_of)
  from product_sum_support [OF K this] have "product_sum ?r ?c = S"
    by (simp add: S_def dict_get_def r c)
  with True show ?thesis by (simp add: E_def map_of_mul_loops)
next
  case False
  have none: "map_of A (i, k) = None \<or> map_of B (k, j) = None" for k
  proof (cases "i \<in> set (dict_keys (by_row A))")
    case True
    with False have "j \<notin> set (dict_keys (by_col B))" by simp
    then show ?thesis by (simp add: no_col)
  next
    case False
    then show ?thesis by (simp add: no_row)
  qed
  have "dict_get A (i, k) 0 * dict_get B (k, j) 0 = 0" for k
    using none [of k] by (auto simp add: dict_get_def)
  then have "S = 0" unfolding S_def by (intro sum.neutral ballI)
  with False show ?thesis by (auto simp add: E_def map_of_mul_loops)
qed

text \<open>
  Claim C1. When \<open>num_cols\<close> of A equals \<open>num_rows\<close> of B, multiplication returns a
  matrix with \<open>num_rows\<close> of A and \<open>num_cols\<close> of B, and at every coordinate \<open>(i, j)\<close>
  its \<open>get_element\<close> is the sum over \<open>k\<close> of \<open>A.get_element(i, k) * B.get_element(k, j)\<close>,
  over any finite range \<open>K\<close> of \<open>k\<close> that covers the \<open>k\<close> with an entry stored at \<open>(i, k)\<close>
  in A and at \<open>(k, j)\<close> in B (all other terms are 0). An entry is stored at \<open>(i, j)\<close>
  exactly when that sum is not 0. The operands are objects of the heap whose
  dictionaries have unique keys, as every Python dictionary has.
\<close>

theorem mul_correct:
  assumes "valid h a" "valid h b" "num_cols (h ! a) = num_rows (h ! b)"
  shows "\<exists>r h'. SparseMatrix_mul a b h = (Inr r, h') \<and>
           num_rows (h' ! r) = num_rows (h ! a) \<and> num_cols (h' ! r) = num_cols (h ! b) \<and>
           (\<forall>i j K. finite K \<and>
                {k. dict_contains (elements (h ! a)) (i, k) \<and>
                    dict_contains (elements (h ! b)) (k, j)} \<subseteq> K \<longrightarrow>
              get_element r i j h' = (\<Sum>k\<in>K. get_element a i k h * get_element b k j h) \<and>
              (dict_contains (elements (h' ! r)) (i, j) \<longleftrightarrow>
                 (\<Sum>k\<in>K. get_element a i k h * get_element b k j h) \<noteq> 0))"
proof -
  let ?A = "elements (h ! a)" and ?B = "elements (h ! b)"
  let ?E = "fold (\<lambda>i. fold (mul_d (by_row ?A) (by_col ?B) i) (dict_keys (by_col ?B)))
              (dict_keys (by_row ?A)) []"
  let ?M = "\<lparr>num_rows = num_rows (h ! a), num_cols = num_cols (h ! b), elements = ?E\<rparr>"
  have la: "a < length h" and lb: "b < length h" and A: "dict_ok ?A" and B: "dict_ok ?B"
    using assms(1,2) by (simp_all add: valid_def)
  have mul: "SparseMatrix_mul a b h = (Inr (length h), h @ [?M])"
    by (rule mul_result [OF la lb assms(3)])
  have "get_element (length h) i j (h @ [?M]) = (\<Sum>k\<in>K. get_element a i k h * get_element b k j h) \<and>
        (dict_contains (elements ((h @ [?M]) ! length h)) (i, j) \<longleftrightarrow>
           (\<Sum>k\<in>K. get_element a i k h * get_element b k j h) \<noteq> 0)"
    if "finite K" "{k. dict_contains ?A (i, k) \<and> dict_contains ?B (k, j)} \<subseteq> K" for i j K
    using mul_entry [OF A B that]
    by (simp add: get_element_new get_element_def dict_contains_map_of) (simp add: dict_get_def)
  with mul show ?thesis by simp
qed

theorem mul_correct_witness:
  "valid heap1 0 \<and> valid heap1 2 \<and> num_cols (heap1 ! 0) = num_rows (heap1 ! 2) \<and>
   (\<exists>r h'. SparseMatrix_mul 0 2 heap1 = (Inr r, h') \<and>
      num_rows (h' ! r) = 2 \<and> num_cols (h' ! r) = 1 \<and>
      get_element r 1 0 h' = 0 * 5 + 2 * 6 \<and> dict_contains (elements (h' ! r)) (1, 0))"
proof -
  have p: "valid heap1 0" "valid heap1 2" "num_cols (heap1 ! 0) = num_rows (heap1 ! 2)"
    by (simp_all add: heap1_def valid_def dict_ok_def)
  have K: "finite {0, 1 :: int} \<and>
       {k. dict_contains (elements (heap1 ! 0)) (1, k) \<and>
           dict_contains (elements (heap1 ! 2)) (k, 0)} \<subseteq> {0, 1}"
    by (auto simp add: heap1_def dict_contains_def dict_keys_def)
  have s: "(\<Sum>k\<in>{0, 1 :: int}. get_element 0 1 k heap1 * get_element 2 k 0 heap1) = 12"
    by (simp add: heap1_def get_element_def dict_get_def)
  from mul_correct [OF p] obtain r h' where
    m: "SparseMatrix_mul 0 2 heap1 = (Inr r, h')"
      "num_rows (h' ! r) = num_rows (heap1 ! 0)" "num_cols (h' ! r) = num_cols (heap1 ! 2)"
    and e: "\<And>i j K. finite K \<and>
                {k. dict_contains (elements (heap1 ! 0)) (i, k) \<and>
                    dict_contains (elements (heap1 ! 2)) (k, j)} \<subseteq> K \<Longrightarrow>
              get_element r i j h' = (\<Sum>k\<in>K. get_element 0 i k heap1 * get_element 2 k j heap1) \<and>
              (dict_contains (elements (h' ! r)) (i, j) \<longleftrightarrow>
                 (\<Sum>k\<in>K. get_element 0 i k heap1 * get_element 2 k j heap1) \<noteq> 0)"
    by blast
  from e [OF K] s have "get_element r 1 0 h' = 12" "dict_contains (elements (h' ! r)) (1, 0)"
    by simp_all
  moreover have "num_rows (heap1 ! 0) = 2" "num_cols (heap1 ! 2) = 1" by (simp_all add: heap1_def)
  ultimately show ?thesis using p m by auto
qed

section \<open>The parser\<close>

lemma read_entries_append:
  "read_entries (xs @ ys) d =
     (case read_entries xs d of Inl e \<Rightarrow> Inl e | Inr d' \<Rightarrow> read_entries ys d')"
  by (induction xs arbitrary: d) (simp_all split: sum.splits option.splits prod.splits)

lemma read_entries_keeps:
  "read_entries ls d = Inr d' \<Longrightarrow>
   (\<And>l v. l \<in> set ls \<Longrightarrow> read_entry l \<noteq> Inr (Some (row, col, v))) \<Longrightarrow>
   map_of d' (row, col) = map_of d (row, col)"
proof (induction ls arbitrary: d)
  case Nil
  then show ?case by simp
next
  case (Cons l ls)
  show ?case
  proof (cases "read_entry l")
    case (Inl e)
    with Cons.prems(1) show ?thesis by simp
  next
    case (Inr t)
    show ?thesis
    proof (cases t)
      case None
      with Inr Cons.prems(1) have "read_entries ls d = Inr d'" by simp
      from Cons.IH [OF this] Cons.prems(2) show ?thesis by simp
    next
      case (Some e)
      obtain r c v where e: "e = (r, c, v)" by (cases e) auto
      from Inr Some e Cons.prems(1)
      have "read_entries ls (dict_setitem d (r, c) v) = Inr d'" by simp
      from Cons.IH [OF this] Cons.prems(2)
      have "map_of d' (row, col) = map_of (dict_setitem d (r, c) v) (row, col)" by simp
      moreover have "(r, c) \<noteq> (row, col)"
        using Cons.prems(2) [of l v] Inr Some e by auto
      ultimately show ?thesis by (auto simp add: map_of_setitem)
    qed
  qed
qed

text \<open>
  Claim C8, as stated, fails: the text of \<open>text_overwritten_zero\<close> holds the well-formed
  entry line \<open>(0, 0, 0)\<close>, and the matrix parsed from it binds \<open>(0, 0)\<close> to 5 and
  satisfies I1, because a later line for the same coordinate overwrites the entry.
\<close>

theorem zero_entry_overwritten:
  "read_entry (''(0, 0, 0)'' @ [NL]) = Inr (Some (0, 0, 0)) \<and>
   file_lines text_overwritten_zero ! 2 = ''(0, 0, 0)'' @ [NL] \<and>
   read_matrix_from_file text_overwritten_zero =
     Inr \<lparr>num_rows = 1, num_cols = 1, elements = [((0, 0), 5)]\<rparr> \<and>
   I1 \<lparr>num_rows = 1, num_cols = 1, elements = [((0, 0), 5)]\<rparr>"
  by code_simp

text \<open>
  Claim C8, amended. When a text parses, and one of its entry lines is well formed with
  the value 0, and no later entry line is for the same coordinate, then the dictionary
  of the parsed matrix binds that coordinate to 0: the parser assigns to the dictionary
  directly, without the pruning of \<open>set_element\<close>, and the matrix violates I1.
\<close>

theorem zero_entry_stored:
  assumes "read_matrix_from_file text = Inr M"
    and "drop 2 (file_lines text) = pre @ line # post"
    and "read_entry line = Inr (Some (row, col, 0))"
    and "\<forall>l \<in> set post. \<forall>v. read_entry l \<noteq> Inr (Some (row, col, v))"
  shows "map_of (elements M) (row, col) = Some 0 \<and> \<not> I1 M"
proof -
  from assms(1) have "read_entries (drop 2 (file_lines text)) [] = Inr (elements M)"
    by (auto simp add: read_matrix_from_file_def Let_def split: sum.splits)
  then have "read_entries (pre @ line # post) [] = Inr (elements M)" by (simp add: assms(2))
  then obtain d where d: "read_entries pre [] = Inr d"
    and r: "read_entries (line # post) d = Inr (elements M)"
    by (auto simp add: read_entries_append split: sum.splits)
  from r assms(3) have "read_entries post (dict_setitem d (row, col) 0) = Inr (elements M)" by simp
  from read_entries_keeps [OF this] assms(4)
  have "map_of (elements M) (row, col) = map_of (dict_setitem d (row, col) 0) (row, col)" by blast
  then have s: "map_of (elements M) (row, col) = Some 0" by (simp add: map_of_setitem)
  then have "((row, col), 0) \<in> set (elements M)" by (rule map_of_SomeD)
  then have "\<not> I1 M" by (force simp add: I1_def)
  with s show ?thesis by simp
qed

theorem zero_entry_stored_witness:
  "read_matrix_from_file text_zero = Inr \<lparr>num_rows = 1, num_cols = 1, elements = [((0, 0), 0)]\<rparr> \<and>
   drop 2 (file_lines text_zero) = [] @ ''(0, 0, 0)'' # [] \<and>
   read_entry ''(0, 0, 0)'' = Inr (Some (0, 0, 0)) \<and>
   map_of (elements \<lparr>num_rows = 1, num_cols = 1, elements = [((0, 0), 0)]\<rparr>) (0, 0) = Some 0 \<and>
   \<not> I1 \<lparr>num_rows = 1, num_cols = 1, elements = [((0, 0), 0)]\<rparr>"
proof -
  have a: "read_matrix_from_file text_zero =
             Inr \<lparr>num_rows = 1, num_cols = 1, elements = [((0, 0), 0)]\<rparr>"
    by code_simp
  have b: "drop 2 (file_lines text_zero) = [] @ ''(0, 0, 0)'' # []"
    by code_simp
  have c: "read_entry ''(0, 0, 0)'' = Inr (Some (0, 0, 0))"
    by code_simp
  from zero_entry_stored [OF a b c] a b c show ?thesis by simp
qed

lemma str_split_unfold:
  "str_split sep s =
     takeWhile (\<lambda>c. c \<noteq> sep) s #
       (case dropWhile (\<lambda>c. c \<noteq> sep) s of [] \<Rightarrow> [] | c # rest \<Rightarrow> str_split sep rest)"
  by (induction s) (auto split: list.splits)

lemma str_split_second:
  "dropWhile (\<lambda>c. c \<noteq> sep) s = c # rest \<Longrightarrow>
   1 < length (str_split sep s) \<and> str_split sep s ! 1 = takeWhile (\<lambda>c. c \<noteq> sep) rest"
  by (subst (1 2) str_split_unfold) (simp add: str_split_unfold [of sep rest])

lemma str_split_single: "sep \<notin> set s \<Longrightarrow> str_split sep s = [s]"
  by (induction s) auto

lemma header_token_None: "header_token line = None \<longleftrightarrow> CHR ''='' \<notin> set line"
proof
  assume "header_token line = None"
  then have "dropWhile (\<lambda>c. c \<noteq> CHR ''='') line = []"
    by (simp add: header_token_def split: list.splits)
  then show "CHR ''='' \<notin> set line" by auto
next
  assume "CHR ''='' \<notin> set line"
  then have "dropWhile (\<lambda>c. c \<noteq> CHR ''='') line = []" by auto
  then show "header_token line = None" unfolding header_token_def by (simp only: list.case)
qed

lemma header_value_token:
  "header_value lines n =
     (if n < length lines then
        (case header_token (lines ! n) of
           None \<Rightarrow> Inl IndexError
         | Some tok \<Rightarrow> py_int (str_strip tok))
      else Inl IndexError)"
proof (cases "dropWhile (\<lambda>c. c \<noteq> CHR ''='') (lines ! n)")
  case Nil
  then have "CHR ''='' \<notin> set (lines ! n)" by auto
  then have "header_token (lines ! n) = None" "str_split CHR ''='' (lines ! n) = [lines ! n]"
    using header_token_None [of "lines ! n"] str_split_single [of "CHR ''=''" "lines ! n"]
    by blast+
  then show ?thesis by (simp add: header_value_def)
next
  case (Cons c rest)
  with str_split_second [OF Cons] show ?thesis
    by (simp add: header_value_def header_token_def Let_def)
qed

lemma header_value_Inr:
  "header_value lines n = Inr v \<longleftrightarrow> n < length lines \<and> assigns_int (lines ! n) v"
  by (auto simp add: header_value_token assigns_int_def py_int_def split: option.splits)

lemma unpack_ints_Inr:
  "unpack_ints fs = Inr t \<longleftrightarrow>
     (\<exists>f1 f2 f3. fs = [f1, f2, f3] \<and> int_of_str f1 = Some (fst t) \<and>
        int_of_str f2 = Some (fst (snd t)) \<and> int_of_str f3 = Some (snd (snd t)))"
  by (cases t) (auto simp add: unpack_ints_def py_int_def split: list.splits option.splits sum.splits)

lemma read_entry_Some: "read_entry l = Inr (Some t) \<longleftrightarrow> str_strip l \<noteq> [] \<and> three_ints l t"
proof -
  have "three_ints l t \<longleftrightarrow> unpack_ints (entry_fields l) = Inr t"
    by (auto simp add: unpack_ints_Inr three_ints_def split: list.splits)
  then show ?thesis
    by (auto simp add: read_entry_def entry_fields_def Let_def split: sum.splits)
qed














section \<open>Integers as text\<close>

lemma is_digit_digit_char: "d < 10 \<Longrightarrow> is_digit (digit_char d)"
proof -
  have "list_all (\<lambda>d. is_digit (digit_char d)) [0..<10]" by code_simp
  then show "d < 10 \<Longrightarrow> is_digit (digit_char d)" by (simp add: list_all_iff)
qed

lemma digit_val_digit_char: "d < 10 \<Longrightarrow> digit_val (digit_char d) = d"
  by (simp add: digit_val_def digit_char_def)

lemma str_nat_digits: "c \<in> set (str_nat n) \<Longrightarrow> is_digit c"
proof (induction n rule: str_nat.induct)
  case (1 n)
  then show ?case
    by (subst (asm) (2) str_nat.simps) (auto simp add: is_digit_digit_char split: if_splits)
qed

lemma str_nat_nonempty: "str_nat n \<noteq> []"
  by (subst str_nat.simps) simp

lemma digits_all:
  "\<forall>c\<in>set ds. is_digit c \<Longrightarrow>
   digits acc ds = Some (fold (\<lambda>c a. 10 * a + digit_val c) ds acc)"
  by (induction ds arbitrary: acc) simp_all

lemma nat_literal_all:
  "ds \<noteq> [] \<Longrightarrow> \<forall>c\<in>set ds. is_digit c \<Longrightarrow>
   nat_literal ds = Some (fold (\<lambda>c a. 10 * a + digit_val c) ds 0)"
  by (cases ds) (simp_all add: nat_literal_def digits_all)

lemma fold_str_nat: "fold (\<lambda>c a. 10 * a + digit_val c) (str_nat n) 0 = n"
proof (induction n rule: str_nat.induct)
  case (1 n)
  show ?case
  proof (cases "n < 10")
    case True
    then show ?thesis by (subst str_nat.simps) (simp add: digit_val_digit_char)
  next
    case False
    with 1 show ?thesis by (subst str_nat.simps) (simp add: digit_val_digit_char)
  qed
qed

lemma nat_literal_str_nat: "nat_literal (str_nat n) = Some n"
  using nat_literal_all [of "str_nat n"] str_nat_digits [of _ n]
  by (simp add: str_nat_nonempty fold_str_nat)

lemma str_int_chars: "c \<in> set (str_int i) \<Longrightarrow> is_digit c \<or> c = CHR ''-''"
  by (auto simp add: str_int_def str_nat_digits split: if_splits)

lemma str_int_nonempty: "str_int i \<noteq> []"
  by (simp add: str_int_def str_nat_nonempty)

lemma plain_not_special:
  "is_digit c \<or> c = CHR ''-'' \<Longrightarrow>
   \<not> is_space c \<and> \<not> is_int_space c \<and> c \<noteq> NL \<and> c \<noteq> CR \<and> c \<noteq> CHR ''='' \<and>
   c \<noteq> CHR '','' \<and> c \<noteq> CHR ''('' \<and> c \<noteq> CHR '')'' \<and> c \<noteq> CHR '' ''"
  by (auto simp add: is_digit_def is_space_def is_int_space_def)

lemma dropWhile_prefix:
  "\<forall>c\<in>set pre. p c \<Longrightarrow> s \<noteq> [] \<Longrightarrow> \<not> p (hd s) \<Longrightarrow> dropWhile p (pre @ s) = s"
  by (induction pre) (auto simp add: neq_Nil_conv)

lemma strip_chars_sandwich:
  assumes "\<forall>c\<in>set pre. p c" "\<forall>c\<in>set post. p c" "s \<noteq> []" "\<not> p (hd s)" "\<not> p (last s)"
  shows "strip_chars p (pre @ s @ post) = s"
proof -
  have "dropWhile p (pre @ s @ post) = s @ post"
    using dropWhile_prefix [of pre p "s @ post"] assms(1,3,4) by simp
  moreover have "dropWhile p (rev post @ rev s) = rev s"
    using dropWhile_prefix [of "rev post" p "rev s"] assms(2,3,5) by (simp add: hd_rev)
  ultimately show ?thesis by (simp add: strip_chars_def)
qed

lemma int_of_str_digits: "int_of_str (str_int i) = Some i"
  if "strip_chars is_int_space (str_int i) = str_int i"
proof (cases "i < 0")
  case True
  then show ?thesis
    by (simp add: int_of_str_def that) (simp add: str_int_def nat_literal_str_nat)
next
  case False
  obtain c cs where cs: "str_nat (nat i) = c # cs"
    using str_nat_nonempty [of "nat i"] by (cases "str_nat (nat i)") auto
  then have "is_digit c" using str_nat_digits [of c "nat i"] by simp
  then have "c \<noteq> CHR ''-''" "c \<noteq> CHR ''+''" by (auto simp add: is_digit_def)
  with False cs nat_literal_str_nat [of "nat i"] show ?thesis
    by (simp add: int_of_str_def that) (simp add: str_int_def)
qed

lemma str_int_ends: "\<not> p (hd (str_int i)) \<and> \<not> p (last (str_int i))"
  if "\<And>c. is_digit c \<or> c = CHR ''-'' \<Longrightarrow> \<not> p c"
  using str_int_chars [of _ i] str_int_nonempty [of i] that
  by (metis hd_in_set last_in_set)

lemma strip_around_int:
  assumes "\<And>c. is_digit c \<or> c = CHR ''-'' \<Longrightarrow> \<not> p c"
    and "\<forall>c\<in>set pre. p c" "\<forall>c\<in>set post. p c"
  shows "strip_chars p (pre @ str_int i @ post) = str_int i"
  using str_int_ends [of p i, OF assms(1)] assms(2,3)
  by (intro strip_chars_sandwich) (simp_all add: str_int_nonempty)

lemma str_strip_around_int:
  "\<forall>c\<in>set pre. is_space c \<Longrightarrow> \<forall>c\<in>set post. is_space c \<Longrightarrow>
   str_strip (pre @ str_int i @ post) = str_int i"
  unfolding str_strip_def using plain_not_special by (intro strip_around_int) blast+

lemma int_of_str_str_int:
  assumes "\<forall>c\<in>set pre. is_int_space c" "\<forall>c\<in>set post. is_int_space c"
  shows "int_of_str (pre @ str_int i @ post) = Some i"
proof -
  have plain: "\<not> is_int_space c" if "is_digit c \<or> c = CHR ''-''" for c
    using plain_not_special [OF that] by blast
  have a: "strip_chars is_int_space (pre @ str_int i @ post) = str_int i"
    by (rule strip_around_int [OF plain assms])
  have b: "strip_chars is_int_space (str_int i) = str_int i"
    using strip_around_int [of is_int_space "[]" "[]" i, OF plain] by simp
  from int_of_str_digits [OF b] show ?thesis by (simp add: int_of_str_def a b)
qed

text \<open>
  The separators 0x1C to 0x1F are whitespace for \<open>str.strip()\<close> and not for \<open>int()\<close>: a
  field that starts with one is an invalid literal, one that starts with 0x85 is not.
\<close>

lemma int_space_examples:
  "str_strip ([CHR 0x1C] @ ''2'') = ''2'' \<and> int_of_str ([CHR 0x1C] @ ''2'') = None \<and>
   int_of_str ([CHR 0x1F] @ ''2'') = None \<and> int_of_str ([CHR 0x85] @ ''2'' @ [CHR 0xA0]) = Some 2 \<and>
   read_matrix_from_file text_separator_entry =
     Inl (FormatError (InvalidLiteral ([CHR 0x1C] @ ''2'')))"
  by code_simp

section \<open>Lines\<close>

lemma str_split_cons:
  "sep \<notin> set x \<Longrightarrow> str_split sep (x @ sep # rest) = x # str_split sep rest"
  by (induction x) (auto split: list.splits)

lemma readlines_line: "NL \<notin> set x \<Longrightarrow> readlines (x @ NL # rest) = (x @ [NL]) # readlines rest"
  by (induction x) (auto split: list.splits)

lemma readlines_last: "NL \<notin> set x \<Longrightarrow> x \<noteq> [] \<Longrightarrow> readlines x = [x]"
proof (induction x)
  case Nil
  then show ?case by simp
next
  case (Cons c x)
  then show ?case by (cases x) auto
qed

lemma universal_newlines_id: "CR \<notin> set s \<Longrightarrow> universal_newlines s = s"
  by (induction s rule: universal_newlines.induct) auto

lemma readlines_join:
  "\<forall>l\<in>set ls. l \<noteq> [] \<and> NL \<notin> set l \<Longrightarrow>
   list_all2 (\<lambda>fl l. fl = l \<or> fl = l @ [NL]) (readlines (str_join [NL] ls)) ls"
proof (induction "[NL]" ls rule: str_join.induct)
  case 1
  then show ?case by simp
next
  case (2 x)
  then show ?case by (simp add: readlines_last)
next
  case (3 x y ys)
  then show ?case by (simp add: readlines_line)
qed

lemma set_str_join: "set (str_join sep ls) \<subseteq> set sep \<union> \<Union> (set ` set ls)"
  by (induction ls rule: str_join.induct) auto

section \<open>The lines of a serialization, read back\<close>

lemma strip_chars_nonempty: "x \<in> set s \<Longrightarrow> \<not> p x \<Longrightarrow> strip_chars p s \<noteq> []"
proof -
  assume x: "x \<in> set s" "\<not> p x"
  then have "dropWhile p s \<noteq> []" by (auto simp add: dropWhile_eq_Nil_conv)
  then have "\<not> p (hd (dropWhile p s))" "hd (dropWhile p s) \<in> set (rev (dropWhile p s))"
    by (simp_all add: hd_dropWhile)
  then have "dropWhile p (rev (dropWhile p s)) \<noteq> []"
    unfolding dropWhile_eq_Nil_conv by blast
  then show ?thesis by (simp add: strip_chars_def)
qed

lemma paren_str_int:
  "\<not> (hd (str_int i) \<in> set [CHR ''('', CHR '')'', NL]) \<and>
   \<not> (last (str_int i) \<in> set [CHR ''('', CHR '')'', NL])"
proof (rule str_int_ends)
  fix c :: char
  assume "is_digit c \<or> c = CHR ''-''"
  from plain_not_special [OF this] show "c \<notin> set [CHR ''('', CHR '')'', NL]" by simp
qed

lemma comma_str_int: "CHR '','' \<notin> set (str_int i)"
  using str_int_chars [of "CHR '',''" i] plain_not_special [of "CHR '',''"] by blast

lemma entry_fields_entry_line:
  assumes "post = [] \<or> post = [NL]"
  shows "entry_fields (entry_line ((r, c), v) @ post) =
           [str_int r, CHR '' '' # str_int c, CHR '' '' # str_int v]"
proof -
  let ?R = "str_int r" and ?C = "str_int c" and ?V = "str_int v"
  let ?body = "?R @ CHR '','' # (CHR '' '' # ?C) @ CHR '','' # (CHR '' '' # ?V)"
  let ?paren = "\<lambda>c. c \<in> set [CHR ''('', CHR '')'', NL]"
  have fl: "entry_line ((r, c), v) @ post = ''('' @ ?body @ ('')'' @ post)"
    by (simp add: entry_line_def)
  have R: "?R \<noteq> []" and V: "?V \<noteq> []" by (rule str_int_nonempty)+
  have "hd ?body = hd ?R" using R by (simp add: hd_append)
  then have h: "\<not> ?paren (hd ?body)" using paren_str_int [of r] by simp
  have "last ?body = last ?V" using V by simp
  then have l: "\<not> ?paren (last ?body)" using paren_str_int [of v] by simp
  have b: "?body \<noteq> []" using R by simp
  have p1: "\<forall>c\<in>set ''(''. ?paren c" by simp
  have p2: "\<forall>c\<in>set ('')'' @ post). ?paren c" using assms by auto
  have "strip_chars ?paren (''('' @ ?body @ ('')'' @ post)) = ?body"
    by (rule strip_chars_sandwich [OF p1 p2 b h l])
  then have "entry_fields (entry_line ((r, c), v) @ post) = str_split CHR '','' ?body"
    by (simp only: entry_fields_def fl)
  also have "\<dots> = ?R # str_split CHR '','' ((CHR '' '' # ?C) @ CHR '','' # (CHR '' '' # ?V))"
    by (rule str_split_cons) (rule comma_str_int)
  also have "str_split CHR '','' ((CHR '' '' # ?C) @ CHR '','' # (CHR '' '' # ?V)) =
      (CHR '' '' # ?C) # str_split CHR '','' (CHR '' '' # ?V)"
    by (rule str_split_cons) (simp add: comma_str_int)
  also have "str_split CHR '','' (CHR '' '' # ?V) = [CHR '' '' # ?V]"
    by (rule str_split_single) (simp add: comma_str_int)
  finally show ?thesis .
qed

lemma entry_line_nonblank:
  "str_strip (entry_line e @ post) \<noteq> []"
proof -
  have "CHR ''('' \<in> set (entry_line e @ post)" by (cases e) (auto simp add: entry_line_def)
  moreover have "\<not> is_space CHR ''(''" by (simp add: is_space_def)
  ultimately show ?thesis unfolding str_strip_def by (rule strip_chars_nonempty)
qed

lemma space_int: "int_of_str (CHR '' '' # str_int i) = Some i"
proof -
  have "\<forall>c\<in>set '' ''. is_int_space c" by (simp add: is_int_space_def)
  from int_of_str_str_int [OF this, of "[]" i] show ?thesis by simp
qed

lemma plain_int: "int_of_str (str_int i) = Some i"
  using int_of_str_str_int [of "[]" "[]" i] by simp

lemma entry_line_ok:
  assumes "fl = entry_line ((r, c), v) \<or> fl = entry_line ((r, c), v) @ [NL]"
  shows "read_entry fl = Inr (Some (r, c, v))"
proof -
  from assms obtain post where fl: "fl = entry_line ((r, c), v) @ post"
    and post: "post = [] \<or> post = [NL]" by auto
  have "three_ints fl (r, c, v)"
    by (simp add: three_ints_def fl entry_fields_entry_line [OF post] space_int plain_int)
  moreover have "str_strip fl \<noteq> []" unfolding fl by (rule entry_line_nonblank)
  ultimately show ?thesis by (simp add: read_entry_Some)
qed

lemma read_entries_lines:
  "list_all2 (\<lambda>fl e. fl = entry_line e \<or> fl = entry_line e @ [NL]) fls es \<Longrightarrow>
   read_entries fls d = Inr (fold copy_d es d)"
proof (induction fls es arbitrary: d rule: list_all2_induct)
  case Nil
  then show ?case by simp
next
  case (Cons fl fls e es)
  obtain r c v where e: "e = ((r, c), v)" by (cases e) auto
  from Cons.hyps(1) have "read_entry fl = Inr (Some (r, c, v))"
    unfolding e by (rule entry_line_ok)
  then show ?case by (simp add: Cons.IH e copy_d_def)
qed

lemma entry_line_chars:
  "x \<in> set (entry_line e) \<Longrightarrow>
   is_digit x \<or> x \<in> set [CHR ''-'', CHR ''('', CHR '')'', CHR '','', CHR '' '']"
  by (cases e) (auto simp add: entry_line_def dest: str_int_chars)

lemma entry_line_plain: "entry_line e \<noteq> [] \<and> NL \<notin> set (entry_line e) \<and> CR \<notin> set (entry_line e)"
proof -
  have "entry_line e \<noteq> []" by (cases e) (auto simp add: entry_line_def)
  moreover have "NL \<notin> set (entry_line e)" "CR \<notin> set (entry_line e)"
    using entry_line_chars [of NL e] entry_line_chars [of CR e] by (auto simp add: is_digit_def)
  ultimately show ?thesis by simp
qed

lemma header_plain:
  "NL \<notin> set key \<Longrightarrow> CR \<notin> set key \<Longrightarrow>
   key @ ''='' @ str_int n \<noteq> [] \<and> NL \<notin> set (key @ ''='' @ str_int n) \<and>
   CR \<notin> set (key @ ''='' @ str_int n)"
  using str_int_chars [of NL n] str_int_chars [of CR n] by (auto simp add: is_digit_def)

lemma equals_str_int: "CHR ''='' \<notin> set (str_int i)"
  using str_int_chars [of "CHR ''=''" i] plain_not_special [of "CHR ''=''"] by blast

lemma header_line_ok:
  assumes "CHR ''='' \<notin> set key"
    and "fl = key @ ''='' @ str_int n \<or> fl = (key @ ''='' @ str_int n) @ [NL]"
  shows "assigns_int fl n"
proof -
  from assms(2) obtain post where fl: "fl = key @ CHR ''='' # (str_int n @ post)"
    and post: "post = [] \<or> post = [NL]" by auto
  have k: "\<forall>c\<in>set key. c \<noteq> CHR ''=''" using assms(1) by blast
  have "dropWhile (\<lambda>c. c \<noteq> CHR ''='') (key @ CHR ''='' # (str_int n @ post)) =
          CHR ''='' # (str_int n @ post)"
    by (rule dropWhile_prefix [OF k]) simp_all
  moreover have "\<forall>c\<in>set (str_int n @ post). c \<noteq> CHR ''=''"
    using equals_str_int [of n] post by auto
  then have "takeWhile (\<lambda>c. c \<noteq> CHR ''='') (str_int n @ post) = str_int n @ post"
    by (simp only: takeWhile_eq_all_conv)
  ultimately have tok: "header_token fl = Some (str_int n @ post)"
    by (simp add: header_token_def fl)
  have "\<forall>c\<in>set post. is_space c" using post by (auto simp add: is_space_def)
  then have "str_strip ([] @ str_int n @ post) = str_int n"
    by (intro str_strip_around_int) simp_all
  then have "int_of_str (str_strip (str_int n @ post)) = Some n"
    by (simp add: plain_int)
  with tok show ?thesis by (simp add: assigns_int_def)
qed

section \<open>The order of the serialized entries\<close>

lemma sorted_map_fst:
  fixes xs :: "(('a::linorder) \<times> ('b::linorder)) list"
  shows "sorted xs \<Longrightarrow> sorted (map fst xs)"
  by (induction xs) (auto simp add: less_eq_prod_def)

lemma dict_ok_sort:
  fixes d :: "(('a::linorder) \<times> ('b::linorder)) list"
  shows "dict_ok (sort d) = dict_ok d"
  by (simp add: dict_ok_def distinct_map)

lemma map_of_sort:
  fixes d :: "(('a::linorder) \<times> ('b::linorder)) list"
  shows "dict_ok d \<Longrightarrow> map_of (sort d) = map_of d"
  using map_of_inject_set [of "sort d" d] dict_ok_sort [of d] by (simp add: dict_ok_def)

lemma keys_strictly_sorted:
  assumes "dict_ok (d :: (int \<times> int, int) dict)"
  shows "sorted_wrt (\<lambda>(r1, c1) (r2, c2). r1 < r2 \<or> r1 = r2 \<and> c1 < c2) (map fst (sort d))"
proof -
  have "sorted (map fst (sort d))" by (rule sorted_map_fst) simp
  moreover have "distinct (map fst (sort d))"
    using assms dict_ok_sort [of d] by (simp add: dict_ok_def)
  ultimately have "sorted_wrt (<) (map fst (sort d))" by (simp add: strict_sorted_iff)
  then show ?thesis
    by (rule sorted_wrt_mono_rel [rotated]) (auto simp add: less_prod_def)
qed

lemma fold_append_lines: "fold (\<lambda>x r. r @ [f x]) xs r0 = r0 @ map f xs"
  by (induction xs arbitrary: r0) simp_all

lemma SparseMatrix_str_lines:
  "SparseMatrix_str M =
     str_join [NL] ((''rows='' @ str_int (num_rows M)) # (''cols='' @ str_int (num_cols M)) #
                    map entry_line (sort (elements M)))"
  by (simp add: SparseMatrix_str_def Let_def fold_append_lines)

section \<open>Round trip\<close>

lemma parse_serialized:
  assumes "dict_ok (elements M)"
  shows "read_matrix_from_file (SparseMatrix_str M) = Inr (M\<lparr>elements := sort (elements M)\<rparr>)"
proof -
  let ?es = "sort (elements M)"
  let ?L0 = "''rows'' @ ''='' @ str_int (num_rows M)" and ?L1 = "''cols'' @ ''='' @ str_int (num_cols M)"
  let ?LS = "?L0 # ?L1 # map entry_line ?es"
  let ?rel = "\<lambda>fl l. fl = l \<or> fl = l @ [NL]"
  define S where "S = SparseMatrix_str M"
  have S: "S = str_join [NL] ?LS" by (simp add: S_def SparseMatrix_str_lines)
  have h0: "?L0 \<noteq> [] \<and> NL \<notin> set ?L0 \<and> CR \<notin> set ?L0" by (rule header_plain) simp_all
  have h1: "?L1 \<noteq> [] \<and> NL \<notin> set ?L1 \<and> CR \<notin> set ?L1" by (rule header_plain) simp_all
  have plain: "\<forall>l\<in>set ?LS. l \<noteq> [] \<and> NL \<notin> set l \<and> CR \<notin> set l"
    using h0 h1 entry_line_plain by auto
  have "CR \<notin> set S"
    unfolding S using set_str_join [of "[NL]" ?LS] plain by auto
  then have "universal_newlines S = S" by (rule universal_newlines_id)
  then have "file_lines S = readlines S" by (simp only: file_lines_def)
  moreover have "list_all2 ?rel (readlines S) ?LS"
    unfolding S by (rule readlines_join) (use plain in blast)
  ultimately have "list_all2 ?rel (file_lines S) ?LS" by simp
  then obtain f0 f1 frest where fl: "file_lines S = f0 # f1 # frest"
    and f0: "?rel f0 ?L0" and f1: "?rel f1 ?L1"
    and fr: "list_all2 ?rel frest (map entry_line ?es)"
    by (auto simp add: list_all2_Cons2)
  have "assigns_int f0 (num_rows M)" by (rule header_line_ok [OF _ f0]) simp
  then have nr: "header_value (file_lines S) 0 = Inr (num_rows M)"
    by (simp add: header_value_Inr fl)
  have "assigns_int f1 (num_cols M)" by (rule header_line_ok [OF _ f1]) simp
  then have nc: "header_value (file_lines S) 1 = Inr (num_cols M)"
    by (simp add: header_value_Inr fl)
  from fr have "list_all2 (\<lambda>fl e. fl = entry_line e \<or> fl = entry_line e @ [NL]) frest ?es"
    by (simp add: list_all2_map2)
  then have "read_entries frest [] = Inr (fold copy_d ?es [])" by (rule read_entries_lines)
  moreover have "fold copy_d ?es [] = ?es"
    by (rule fold_copy_d) (simp add: dict_ok_sort assms)
  ultimately have "read_entries (drop 2 (file_lines S)) [] = Inr ?es" by (simp add: fl)
  with nr nc have "read_matrix_from_file S =
      Inr \<lparr>num_rows = num_rows M, num_cols = num_cols M, elements = ?es\<rparr>"
    by (simp add: read_matrix_from_file_def)
  then show ?thesis by (simp add: S_def)
qed

text \<open>
  Claim C3. For a matrix whose dictionary satisfies I1, parsing its serialization
  succeeds and yields a matrix with the same dimensions that is element-wise equal to
  it: \<open>get_element\<close> agrees at every coordinate (the dictionary read back is the sorted
  list of the entries). The serialization is the line \<open>rows=\<close>, the line \<open>cols=\<close> and then
  one line for each entry, the entries in ascending lexicographic order of
  \<open>(row, col)\<close>. (The proof does not use I1: stored zeros are written and read back as
  they are.)
\<close>

theorem serialize_parse_roundtrip:
  assumes "dict_ok (elements M)" "I1 M"
  shows "read_matrix_from_file (SparseMatrix_str M) = Inr (M\<lparr>elements := sort (elements M)\<rparr>) \<and>
         (\<forall>r c. get_element 0 r c [M\<lparr>elements := sort (elements M)\<rparr>] = get_element 0 r c [M]) \<and>
         SparseMatrix_str M =
           str_join [NL] ((''rows='' @ str_int (num_rows M)) # (''cols='' @ str_int (num_cols M)) #
                          map entry_line (sort (elements M))) \<and>
         sorted_wrt (\<lambda>(r1, c1) (r2, c2). r1 < r2 \<or> r1 = r2 \<and> c1 < c2)
           (map fst (sort (elements M))) \<and>
         set (sort (elements M)) = set (elements M) \<and>
         length (sort (elements M)) = length (elements M)"
proof -
  have "get_element 0 r c [M\<lparr>elements := sort (elements M)\<rparr>] = get_element 0 r c [M]" for r c
    by (simp add: get_element_def dict_get_def map_of_sort [OF assms(1)])
  then show ?thesis
    using parse_serialized [OF assms(1)] keys_strictly_sorted [OF assms(1)]
    by (simp add: SparseMatrix_str_lines)
qed

theorem serialize_parse_roundtrip_witness:
  "dict_ok (elements matrix3) \<and> I1 matrix3 \<and>
   SparseMatrix_str matrix3 =
     ''rows=2'' @ [NL] @ ''cols=3'' @ [NL] @ ''(0, 0, 120)'' @ [NL] @ ''(0, 2, -40)'' @ [NL] @
     ''(1, 1, 2)'' \<and>
   read_matrix_from_file (SparseMatrix_str matrix3) =
     Inr \<lparr>num_rows = 2, num_cols = 3,
          elements = [((0, 0), 120), ((0, 2), - 40), ((1, 1), 2)]\<rparr> \<and>
   (\<forall>r c. get_element 0 r c [matrix3\<lparr>elements := sort (elements matrix3)\<rparr>] =
      get_element 0 r c [matrix3])"
proof -
  have p: "dict_ok (elements matrix3)" "I1 matrix3" by code_simp+
  have s: "sort (elements matrix3) = [((0, 0), 120), ((0, 2), - 40), ((1, 1), 2)]" by code_simp
  have t: "SparseMatrix_str matrix3 =
     ''rows=2'' @ [NL] @ ''cols=3'' @ [NL] @ ''(0, 0, 120)'' @ [NL] @ ''(0, 2, -40)'' @ [NL] @
     ''(1, 1, 2)''" by code_simp
  have m: "matrix3\<lparr>elements := [((0, 0), 120), ((0, 2), - 40), ((1, 1), 2)]\<rparr> =
      \<lparr>num_rows = 2, num_cols = 3, elements = [((0, 0), 120), ((0, 2), - 40), ((1, 1), 2)]\<rparr>"
    by (simp add: matrix3_def)
  note T = serialize_parse_roundtrip [OF p]
  from T have "read_matrix_from_file (SparseMatrix_str matrix3) =
      Inr (matrix3\<lparr>elements := sort (elements matrix3)\<rparr>)" by blast
  then have r: "read_matrix_from_file (SparseMatrix_str matrix3) =
     Inr \<lparr>num_rows = 2, num_cols = 3,
          elements = [((0, 0), 120), ((0, 2), - 40), ((1, 1), 2)]\<rparr>"
    by (simp only: s m)
  from T have g: "\<forall>r c. get_element 0 r c [matrix3\<lparr>elements := sort (elements matrix3)\<rparr>] =
      get_element 0 r c [matrix3]" by blast
  from p t r g show ?thesis by blast
qed

end
